theory Spec2Isabelle
  imports Complex_Main "HOL-Library.Word"
begin

section \<open>JavaScript values and strings\<close>

text \<open>
  A JavaScript string is a sequence of UTF-16 code units; \<open>length\<close>, \<open>charAt\<close>, indexing
  and the regular expressions of the sources (none carries the \<open>u\<close> flag) all work on
  code units. Numbers are IEEE doubles in the sources. Here the scores and the numbers that
  \<open>parseFloat\<close> reads are real numbers, so rounding is left out, and a numeric cell value
  is an integer (what \<open>String\<close> prints for it is then its decimal digits). Values are used
  by the modelled functions only through tests against \<open>null\<close> and \<open>undefined\<close>, through
  their truth value and through \<open>String\<close>.
\<close>

type_synonym jschar = "16 word"
type_synonym jstring = "jschar list"

definition js :: "string \<Rightarrow> jstring" where
  \<comment> \<open>an ASCII literal as code units\<close>
  "js s = map of_char s"

datatype jsval = Undefined | Null | Bool bool | Num int | Str jstring

fun digitsOf :: "nat \<Rightarrow> jstring" where
  "digitsOf n = (if n < 10 then [of_nat (48 + n)] else digitsOf (n div 10) @ [of_nat (48 + n mod 10)])"

declare digitsOf.simps [simp del]

fun String_js :: "jsval \<Rightarrow> jstring" where
  \<comment> \<open>\<open>String(v)\<close>\<close>
  "String_js Undefined = js ''undefined''"
| "String_js Null = js ''null''"
| "String_js (Bool b) = (if b then js ''true'' else js ''false'')"
| "String_js (Num n) = (if n < 0 then 0x2D # digitsOf (nat (- n)) else digitsOf (nat n))"
| "String_js (Str s) = s"

fun truthy :: "jsval \<Rightarrow> bool" where
  "truthy Undefined = False"
| "truthy Null = False"
| "truthy (Bool b) = b"
| "truthy (Num n) = (n \<noteq> 0)"
| "truthy (Str s) = (s \<noteq> [])"

definition isNullish :: "jsval \<Rightarrow> bool" where
  \<comment> \<open>\<open>v == null\<close>, that is \<open>v === null || v === undefined\<close>\<close>
  "isNullish v = (v = Null \<or> v = Undefined)"

definition isWhiteSpace :: "jschar \<Rightarrow> bool" where
  \<comment> \<open>the class \<open>\s\<close>, which is also what \<open>trim\<close> strips: WhiteSpace and LineTerminator\<close>
  "isWhiteSpace c =
     ((0x09 \<le> c \<and> c \<le> 0x0D) \<or> c = 0x20 \<or> c = 0xA0 \<or> c = 0x1680 \<or>
      (0x2000 \<le> c \<and> c \<le> 0x200A) \<or> c = 0x2028 \<or> c = 0x2029 \<or> c = 0x202F \<or>
      c = 0x205F \<or> c = 0x3000 \<or> c = 0xFEFF)"

definition isDigit :: "jschar \<Rightarrow> bool" where
  \<comment> \<open>the class \<open>\d\<close>\<close>
  "isDigit c = (0x30 \<le> c \<and> c \<le> 0x39)"

definition trimEnd :: "jstring \<Rightarrow> jstring" where
  "trimEnd s = rev (dropWhile isWhiteSpace (rev s))"

definition trim :: "jstring \<Rightarrow> jstring" where
  "trim s = trimEnd (dropWhile isWhiteSpace s)"

function collapseWS :: "jstring \<Rightarrow> jstring" where
  \<comment> \<open>\<open>s.replace(/\s+/g, ' ')\<close>\<close>
  "collapseWS [] = []"
| "collapseWS (c # cs) =
     (if isWhiteSpace c then 0x20 # collapseWS (dropWhile isWhiteSpace cs)
      else c # collapseWS cs)"
  by pat_completeness auto
termination
  by (relation "measure length") (auto simp: length_dropWhile_le less_Suc_eq_le)

definition lowerChar :: "jschar \<Rightarrow> jschar" where
  "lowerChar c =
     (if (0x41 \<le> c \<and> c \<le> 0x5A) \<or> (0xC0 \<le> c \<and> c \<le> 0xDE \<and> c \<noteq> 0xD7) then c + 0x20 else c)"

definition toLowerCase :: "jstring \<Rightarrow> jstring" where
  \<comment> \<open>\<open>s.toLowerCase()\<close> on Basic Latin and Latin-1; every other code unit, the Arabic
      blocks among them (Arabic has no case), is left as it is\<close>
  "toLowerCase s = map lowerChar s"

definition replaceChar :: "jschar \<Rightarrow> jschar \<Rightarrow> jstring \<Rightarrow> jstring" where
  \<comment> \<open>\<open>s.replace(new RegExp(from, 'g'), to)\<close> for a one-unit pattern that is no metacharacter\<close>
  "replaceChar from to s = map (\<lambda>c. if c = from then to else c) s"

definition removeChar :: "jschar \<Rightarrow> jstring \<Rightarrow> jstring" where
  \<comment> \<open>\<open>s.replace(new RegExp(char, 'g'), '')\<close>\<close>
  "removeChar ch s = filter (\<lambda>c. c \<noteq> ch) s"

fun splitOn :: "jschar \<Rightarrow> jstring \<Rightarrow> jstring list" where
  \<comment> \<open>\<open>s.split(d)\<close> for a one-unit separator\<close>
  "splitOn d [] = [[]]"
| "splitOn d (c # cs) =
     (if c = d then [] # splitOn d cs
      else (case splitOn d cs of [] \<Rightarrow> [[c]] | w # ws \<Rightarrow> (c # w) # ws))"

fun joinWith :: "jstring \<Rightarrow> jstring list \<Rightarrow> jstring" where
  \<comment> \<open>\<open>parts.join(sep)\<close>\<close>
  "joinWith sep [] = []"
| "joinWith sep [p] = p"
| "joinWith sep (p # q # ps) = p @ sep @ joinWith sep (q # ps)"


section \<open>ArabicNormalizer\<close>

definition alef :: "(jschar \<times> jschar) list" where
  "alef = [(0x623, 0x627), (0x625, 0x627), (0x622, 0x627), (0x671, 0x627), (0x672, 0x627),
           (0x673, 0x627)]"

definition yaa :: "(jschar \<times> jschar) list" where
  "yaa = [(0x649, 0x64A), (0x626, 0x64A)]"

definition taa :: "(jschar \<times> jschar) list" where
  "taa = [(0x629, 0x647)]"

definition waw :: "(jschar \<times> jschar) list" where
  "waw = [(0x624, 0x648)]"

definition remove_chars :: "jschar list" where
  \<comment> \<open>\<open>mappings.remove\<close>: hamza, the eight diacritics, tatweel\<close>
  "remove_chars = [0x621, 0x64B, 0x64C, 0x64D, 0x64E, 0x64F, 0x650, 0x651, 0x652, 0x640]"

definition applyMapping :: "(jschar \<times> jschar) list \<Rightarrow> jstring \<Rightarrow> jstring" where
  \<comment> \<open>\<open>for (const [from, to] of Object.entries(m)) s = s.replace(new RegExp(from, 'g'), to)\<close>\<close>
  "applyMapping m s = fold (\<lambda>(from, to). replaceChar from to) m s"

definition normalize_text :: "jsval \<Rightarrow> jstring" where
  \<comment> \<open>\<open>ArabicNormalizer.normalize\<close>\<close>
  "normalize_text text =
     (case text of
        Str s \<Rightarrow>
          if s = [] then []
          else trim (collapseWS (fold removeChar remove_chars
                 (applyMapping waw (applyMapping taa (applyMapping yaa (applyMapping alef s))))))
      | _ \<Rightarrow> [])"

definition punctuation :: "jschar list" where
  \<comment> \<open>the class of line 108 of arabicNormalizer.js\<close>
  "punctuation = [0x2E, 0x2C, 0x60C, 0x61B, 0x3A, 0x3B, 0x21, 0x3F, 0x28, 0x29, 0x5B, 0x5D,
                  0x7B, 0x7D, 0x27, 0x22, 0xAB, 0xBB]"

definition clean :: "jsval \<Rightarrow> jstring" where
  "clean text =
     (case text of
        Str s \<Rightarrow>
          if s = [] then []
          else joinWith [0x20]
                 (map (\<lambda>word. normalize_text (Str word))
                    (splitOn 0x20
                       (filter (\<lambda>c. c \<notin> set punctuation) (toLowerCase (trim (collapseWS s))))))
      | _ \<Rightarrow> [])"

definition isArabicChar :: "jschar \<Rightarrow> bool" where
  "isArabicChar c =
     ((0x0600 \<le> c \<and> c \<le> 0x06FF) \<or> (0x0750 \<le> c \<and> c \<le> 0x077F) \<or> (0x08A0 \<le> c \<and> c \<le> 0x08FF))"

definition isArabic :: "jstring \<Rightarrow> bool" where
  "isArabic text = list_ex isArabicChar text"


section \<open>Matcher\<close>

record matcher_config =
  exactThreshold :: real
  highSimilarityThreshold :: real
  similarThreshold :: real
  weakMatchThreshold :: real
  numericTolerance :: real
  useArabicNormalization :: bool

definition default_config :: matcher_config where
  "default_config =
     \<lparr>exactThreshold = 1, highSimilarityThreshold = 9 / 10, similarThreshold = 75 / 100,
      weakMatchThreshold = 6 / 10, numericTolerance = 1 / 100, useArabicNormalization = True\<rparr>"

datatype match_type =
  T_exact | T_normalized | T_fuzzy_high | T_fuzzy | T_fuzzy_weak | T_numeric
  | T_numeric_tolerance | T_missing | T_none

datatype algorithm = A_levenshtein | A_jaroWinkler | A_tokenSet

record match_result =
  score :: real
  mtype :: match_type
  matched :: bool
  algorithm :: "algorithm option"
  details :: "(algorithm \<times> real) list"
  difference :: "real option"

definition plain_result :: "real \<Rightarrow> match_type \<Rightarrow> bool \<Rightarrow> match_result" where
  \<comment> \<open>an object literal \<open>{ score, type, matched }\<close> with no further property\<close>
  "plain_result sc ty m =
     \<lparr>score = sc, mtype = ty, matched = m, algorithm = None, details = [], difference = None\<rparr>"

subsection \<open>Levenshtein similarity\<close>

text \<open>
  The source fills \<open>matrix[i][j]\<close> for \<open>i \<le> lenB\<close>, \<open>j \<le> lenA\<close>, row by row. Row \<open>0\<close> is
  \<open>[0, 1, ..., lenA]\<close> and \<open>matrix[i][0] = i\<close>. \<open>lev_row\<close> computes the cells
  \<open>matrix[i][j..lenA]\<close> of one row from the row above (whose cells \<open>j - 1\<close> onwards it is
  given) and the cell to the left.
\<close>

fun lev_row :: "jschar \<Rightarrow> jstring \<Rightarrow> nat list \<Rightarrow> nat \<Rightarrow> nat list" where
  "lev_row bc (ac # as) (diag # up # prev) left =
     (let v = (if bc = ac then diag else min (diag + 1) (min (left + 1) (up + 1)))
      in v # lev_row bc as (up # prev) v)"
| "lev_row bc _ _ _ = []"

fun lev_rows :: "jstring \<Rightarrow> jstring \<Rightarrow> nat \<Rightarrow> nat list \<Rightarrow> nat list" where
  "lev_rows a [] i prev = prev"
| "lev_rows a (bc # bs) i prev = lev_rows a bs (Suc i) (i # lev_row bc a prev i)"

definition levenshteinDistance :: "jstring \<Rightarrow> jstring \<Rightarrow> nat" where
  \<comment> \<open>\<open>matrix[lenB][lenA]\<close>\<close>
  "levenshteinDistance a b = last (lev_rows a b 1 [0..<Suc (length a)])"

definition levenshteinSimilarity :: "jstring \<Rightarrow> jstring \<Rightarrow> real" where
  "levenshteinSimilarity a b =
     (if a = b then 1
      else if a = [] \<or> b = [] then 0
      else let distance = levenshteinDistance a b; maxLen = max (length a) (length b)
           in if maxLen = 0 then 1 else 1 - real distance / real maxLen)"

subsection \<open>Jaro and Jaro-Winkler\<close>

definition jaro_find :: "jstring \<Rightarrow> jstring \<Rightarrow> bool list \<Rightarrow> nat \<Rightarrow> int \<Rightarrow> nat option" where
  \<comment> \<open>the inner loop of the match search: the first \<open>j\<close> of the window with
      \<open>!bMatches[j] && a[i] === b[j]\<close>\<close>
  "jaro_find a b bMatches i matchWindow =
     (let start = max 0 (int i - matchWindow);
          stop = min (int i + matchWindow + 1) (int (length b))
      in find (\<lambda>j. \<not> bMatches ! j \<and> a ! i = b ! j) [nat start..<nat stop])"

definition jaro_step ::
  "jstring \<Rightarrow> jstring \<Rightarrow> int \<Rightarrow> nat \<Rightarrow> bool list \<times> bool list \<times> nat \<Rightarrow> bool list \<times> bool list \<times> nat" where
  "jaro_step a b matchWindow i st =
     (case st of (aMatches, bMatches, matches) \<Rightarrow>
        (case jaro_find a b bMatches i matchWindow of
           None \<Rightarrow> (aMatches, bMatches, matches)
         | Some j \<Rightarrow> (aMatches[i := True], bMatches[j := True], matches + 1)))"

fun jaro_transpositions :: "(bool \<times> jschar) list \<Rightarrow> (bool \<times> jschar) list \<Rightarrow> nat" where
  \<comment> \<open>the second loop; the pointer \<open>k\<close> is the list of the cells of \<open>b\<close> from \<open>k\<close> on.
      The empty case, where the source would loop for ever, is never reached: as many
      cells of \<open>b\<close> are marked as of \<open>a\<close> (\<open>jaro_second_loop_ends\<close> below)\<close>
  "jaro_transpositions [] bs = 0"
| "jaro_transpositions ((am, ac) # as) bs =
     (if \<not> am then jaro_transpositions as bs
      else (case dropWhile (\<lambda>(bm, bc). \<not> bm) bs of
              [] \<Rightarrow> 0
            | (bm, bc) # bs' \<Rightarrow> (if ac \<noteq> bc then 1 else 0) + jaro_transpositions as bs'))"

definition jaro :: "jstring \<Rightarrow> jstring \<Rightarrow> real" where
  "jaro a b =
     (if a = b then 1
      else let lenA = length a; lenB = length b;
               matchWindow = int (max lenA lenB div 2) - 1;
               (aMatches, bMatches, matches) =
                  fold (jaro_step a b matchWindow) [0..<lenA]
                    (replicate lenA False, replicate lenB False, 0)
           in if matches = 0 then 0
              else let transpositions = jaro_transpositions (zip aMatches a) (zip bMatches b)
                   in (real matches / real lenA + real matches / real lenB +
                       (real matches - real transpositions / 2) / real matches) / 3)"

definition jaroWinkler :: "jstring \<Rightarrow> jstring \<Rightarrow> real" where
  "jaroWinkler a b =
     (if a = b then 1
      else if a = [] \<or> b = [] then 0
      else let jaroScore = jaro a b;
               prefix = length (takeWhile (\<lambda>(x, y). x = y) (take 4 (zip a b)))
           in jaroScore + real prefix * (1 / 10) * (1 - jaroScore))"

subsection \<open>Token set ratio\<close>

definition splitWS :: "jstring \<Rightarrow> jstring list" where
  \<comment> \<open>\<open>s.split(/\s+/)\<close>: every maximal run of white space is one separator\<close>
  "splitWS s = splitOn 0x20 (collapseWS s)"

definition newSet :: "'a list \<Rightarrow> 'a list" where
  \<comment> \<open>\<open>new Set(xs)\<close>, in insertion order\<close>
  "newSet xs = fold (\<lambda>x acc. if x \<in> set acc then acc else acc @ [x]) xs []"

definition tokens :: "jstring \<Rightarrow> jstring list" where
  "tokens a = newSet (filter (\<lambda>t. length t > 0) (splitWS (toLowerCase a)))"

definition bestTokenMatch :: "jstring \<Rightarrow> jstring list \<Rightarrow> real" where
  "bestTokenMatch tokenA unmatchedB =
     fold (\<lambda>tokenB bestMatch. max bestMatch (levenshteinSimilarity tokenA tokenB)) unmatchedB 0"

definition tokenSetRatio :: "jstring \<Rightarrow> jstring \<Rightarrow> real" where
  "tokenSetRatio a b =
     (if a = b then 1
      else if a = [] \<or> b = [] then 0
      else let tokensA = tokens a; tokensB = tokens b
           in if tokensA = [] \<and> tokensB = [] then 1
              else if tokensA = [] \<or> tokensB = [] then 0
              else let intersection = filter (\<lambda>t. t \<in> set tokensB) tokensA;
                       unionAB = newSet (tokensA @ tokensB);
                       jaccardScore = real (length intersection) / real (length unionAB);
                       subsetScore = real (length intersection) /
                                     real (min (length tokensA) (length tokensB));
                       unmatchedA = filter (\<lambda>t. t \<notin> set tokensB) tokensA;
                       unmatchedB = filter (\<lambda>t. t \<notin> set tokensA) tokensB;
                       total = fold (\<lambda>tokenA acc. acc + bestTokenMatch tokenA unmatchedB)
                                 unmatchedA 0;
                       partialMatchScore =
                         (if length unmatchedA > 0
                          then total / real (length unmatchedA) * (1 / 2) else 0)
                   in max jaccardScore (max (subsetScore * (95 / 100))
                        ((real (length intersection) / real (length tokensA) +
                          real (length intersection) / real (length tokensB)) / 2 +
                         partialMatchScore * (3 / 10))))"

subsection \<open>Numeric match\<close>

definition numericMatch :: "matcher_config \<Rightarrow> real \<Rightarrow> real \<Rightarrow> match_result" where
  "numericMatch cfg a b =
     (if a = b then plain_result 1 T_exact True
      else let diff = \<bar>a - b\<bar>; avg = (\<bar>a\<bar> + \<bar>b\<bar>) / 2
           in if avg = 0 then plain_result (if diff = 0 then 1 else 0) T_numeric (diff = 0)
              else let percentDiff = diff / avg
                   in if percentDiff \<le> numericTolerance cfg
                      then (plain_result (1 - percentDiff) T_numeric_tolerance True)
                             \<lparr>difference := Some diff\<rparr>
                      else let sc = exp (- percentDiff * 5)
                           in (plain_result sc T_numeric (sc \<ge> weakMatchThreshold cfg))
                                \<lparr>difference := Some diff\<rparr>)"

subsection \<open>smartMatch\<close>

definition numericChars :: "jstring \<Rightarrow> jstring" where
  \<comment> \<open>\<open>s.replace(/[^\d.-]/g, '')\<close>\<close>
  "numericChars s = filter (\<lambda>c. isDigit c \<or> c = 0x2E \<or> c = 0x2D) s"

definition digitsValue :: "jstring \<Rightarrow> nat" where
  "digitsValue ds = foldl (\<lambda>n c. 10 * n + (unat c - 48)) 0 ds"

definition parseFloat :: "jstring \<Rightarrow> real option" where
  \<comment> \<open>\<open>parseFloat\<close> on the strings \<open>numericChars\<close> returns, over digits, \<open>.\<close> and \<open>-\<close>: an
      optional minus sign, then the longest prefix \<open>digits[.digits]\<close> or \<open>.digits\<close>;
      \<open>None\<close> is NaN\<close>
  "parseFloat s =
     (let neg = (s \<noteq> [] \<and> hd s = 0x2D);
          r = (if neg then tl s else s);
          ip = takeWhile isDigit r;
          r' = dropWhile isDigit r;
          fp = (if r' \<noteq> [] \<and> hd r' = 0x2E then takeWhile isDigit (tl r') else [])
      in if ip = [] \<and> fp = [] then None
         else let v = real (digitsValue ip) + real (digitsValue fp) / 10 ^ length fp
              in Some (if neg then - v else v))"

definition classify :: "matcher_config \<Rightarrow> real \<Rightarrow> match_type \<times> bool" where
  \<comment> \<open>the threshold ladder at the end of \<open>smartMatch\<close>\<close>
  "classify cfg sc =
     (if sc \<ge> highSimilarityThreshold cfg then (T_fuzzy_high, True)
      else if sc \<ge> similarThreshold cfg then (T_fuzzy, True)
      else if sc \<ge> weakMatchThreshold cfg then (T_fuzzy_weak, True)
      else (T_none, False))"

definition fuzzyMatch :: "matcher_config \<Rightarrow> jstring \<Rightarrow> jstring \<Rightarrow> match_result" where
  \<comment> \<open>lines 428 to 461: the best of the three algorithms, the first one winning a tie\<close>
  "fuzzyMatch cfg cleanA cleanB =
     (let scores = [(A_levenshtein, levenshteinSimilarity cleanA cleanB),
                    (A_jaroWinkler, jaroWinkler cleanA cleanB),
                    (A_tokenSet, tokenSetRatio cleanA cleanB)];
          bestMatch = foldl (\<lambda>best current. if snd current > snd best then current else best)
                        (hd scores) (tl scores);
          (ty, m) = classify cfg (snd bestMatch)
      in \<lparr>score = snd bestMatch, mtype = ty, matched = m, algorithm = Some (fst bestMatch),
          details = scores, difference = None\<rparr>)"

definition numericStage :: "matcher_config \<Rightarrow> jstring \<Rightarrow> jstring \<Rightarrow> match_result option" where
  \<comment> \<open>lines 403 to 410: the numeric result, when both parse and it reaches the threshold\<close>
  "numericStage cfg strA strB =
     (case (parseFloat (numericChars strA), parseFloat (numericChars strB)) of
        (Some numA, Some numB) \<Rightarrow>
          (let numResult = numericMatch cfg numA numB
           in if score numResult \<ge> similarThreshold cfg then Some numResult else None)
      | _ \<Rightarrow> None)"

definition smartMatch :: "matcher_config \<Rightarrow> jsval \<Rightarrow> jsval \<Rightarrow> match_result" where
  "smartMatch cfg valueA valueB =
     (if isNullish valueA \<and> isNullish valueB then plain_result 1 T_exact True
      else if isNullish valueA \<or> isNullish valueB then plain_result 0 T_missing False
      else let strA = trim (String_js valueA); strB = trim (String_js valueB)
           in if strA = [] \<and> strB = [] then plain_result 1 T_exact True
              else if strA = [] \<or> strB = [] then plain_result 0 T_missing False
              else if strA = strB then plain_result 1 T_exact True
              else if toLowerCase strA = toLowerCase strB then plain_result (99 / 100) T_exact True
              else (case numericStage cfg strA strB of
                      Some numResult \<Rightarrow> numResult
                    | None \<Rightarrow>
                        if useArabicNormalization cfg \<and> (isArabic strA \<or> isArabic strB)
                        then let cleanA = clean (Str strA); cleanB = clean (Str strB)
                             in if cleanA = cleanB then plain_result (98 / 100) T_normalized True
                                else fuzzyMatch cfg cleanA cleanB
                        else fuzzyMatch cfg (toLowerCase strA) (toLowerCase strB)))"


section \<open>Reporter\<close>

text \<open>
  A row is a JavaScript object: its properties in insertion order. Reading a property that
  is not there gives \<open>undefined\<close>.
\<close>

type_synonym row = "(jstring \<times> jsval) list"

definition getProp :: "row \<Rightarrow> jstring \<Rightarrow> jsval" where
  \<comment> \<open>\<open>row[name]\<close>\<close>
  "getProp r name = (case map_of r name of None \<Rightarrow> Undefined | Some v \<Rightarrow> v)"

record header =
  h_index :: nat
  h_name :: jstring
  h_originalName :: jsval

record comparison_sheet =
  cs_id :: jstring
  cs_label :: jstring
  cs_fileName :: jstring
  cs_sheetName :: jstring
  cs_headers :: "header list"
  cs_rows :: "row list"
  cs_rowCount :: nat

datatype status = S_unknown | S_matched | S_similar | S_missing | S_conflict

record occurrence =
  o_sheetIndex :: nat
  o_sheetName :: jstring
  o_row :: row
  o_rowIndex :: nat

record column_comparison =
  cc_score :: real
  isExact :: bool
  isFuzzy :: bool
  isConflict :: bool
  cc_values :: "jsval list option"
  variance :: "real option"

text \<open>
  The \<open>details\<close> text of an analysis (a sentence for the user) is not modelled; every other
  property is. \<open>missingInSheets\<close> exists only on a missing record's analysis and
  \<open>columnComparisons\<close> only on the others.
\<close>

record analysis =
  a_status :: status
  a_presentIn :: nat
  a_totalSheets :: nat
  a_matchScore :: real
  a_missingInSheets :: "nat list option"
  a_columnComparisons :: "(jstring \<times> column_comparison) list option"

record record_entry =
  r_key :: jstring
  r_occurrences :: "occurrence list"
  r_sheetPresence :: "row option list"
  r_status :: status
  r_analysis :: "analysis option"

record results =
  exactMatches :: "record_entry list"
  fuzzyMatches :: "record_entry list"
  differences :: "record_entry list"
  conflicts :: "record_entry list"
  allRecords :: "record_entry list"

record summary =
  sm_totalRecords :: nat
  sm_exactMatches :: nat
  sm_fuzzyMatches :: nat
  sm_differences :: nat
  sm_conflicts :: nat
  sm_sheetsCompared :: nat
  sm_keyColumn :: jstring
  sm_columnsCompared :: nat

record report =
  rp_results :: results
  rp_summary :: summary
  rp_sheets :: "(jstring \<times> nat) list"
  rp_keyColumn :: jstring
  rp_columns :: "jstring list"

record compare_options =
  compareColumns :: "jstring list option"
  threshold :: "real option"

datatype error = AtLeastTwoFiles

definition allPairs :: "'a list \<Rightarrow> ('a \<times> 'a) list" where
  \<comment> \<open>\<open>(xs[i], xs[j])\<close> for \<open>i < j\<close>, in the order of the two nested loops\<close>
  "allPairs xs =
     concat (map (\<lambda>i. map (\<lambda>j. (xs ! i, xs ! j)) [Suc i..<length xs]) [0..<length xs])"

definition compareColumnValues :: "matcher_config \<Rightarrow> jsval list \<Rightarrow> column_comparison" where
  "compareColumnValues cfg vals =
     (let nonNull = filter (\<lambda>v. v \<noteq> Null \<and> v \<noteq> Undefined) vals
      in if length nonNull = 0 \<or> length nonNull = 1
         then \<lparr>cc_score = 1, isExact = True, isFuzzy = False, isConflict = False,
               cc_values = None, variance = None\<rparr>
         else let (minScore, maxScore) =
                    fold (\<lambda>(x, y) (mn, mx).
                            let m = smartMatch cfg x y in (min mn (score m), max mx (score m)))
                      (allPairs nonNull) (1, 0)
              in \<lparr>cc_score = (minScore + maxScore) / 2,
                  isExact = (minScore \<ge> 99 / 100),
                  isFuzzy = (minScore < 99 / 100 \<and> minScore \<ge> 6 / 10),
                  isConflict = (minScore < 6 / 10),
                  cc_values = Some nonNull,
                  variance = Some (maxScore - minScore)\<rparr>)"

definition columnValues :: "row option list \<Rightarrow> jstring \<Rightarrow> jsval list" where
  \<comment> \<open>\<open>record.sheetPresence.map(row => row ? row[column] : null)\<close>\<close>
  "columnValues presence column =
     map (\<lambda>r. case r of Some r' \<Rightarrow> getProp r' column | None \<Rightarrow> Null) presence"

definition setProp :: "'k \<Rightarrow> 'v \<Rightarrow> ('k \<times> 'v) list \<Rightarrow> ('k \<times> 'v) list" where
  \<comment> \<open>\<open>obj[k] = v\<close>: an existing property keeps its place\<close>
  "setProp k v obj =
     (if k \<in> fst ` set obj then map (\<lambda>(k', v'). if k' = k then (k', v) else (k', v')) obj
      else obj @ [(k, v)])"

definition analyzeColumn ::
  "matcher_config \<Rightarrow> row option list \<Rightarrow> jstring \<Rightarrow>
   (jstring \<times> column_comparison) list \<times> real \<times> bool \<times> bool \<Rightarrow>
   (jstring \<times> column_comparison) list \<times> real \<times> bool \<times> bool" where
  \<comment> \<open>the body of the loop over \<open>columnsToCompare\<close>\<close>
  "analyzeColumn cfg presence column st =
     (case st of (columnComparisons, totalScore, hasConflict, hasFuzzyMatch) \<Rightarrow>
        (let comparison = compareColumnValues cfg (columnValues presence column)
         in (setProp column comparison columnComparisons,
             totalScore + cc_score comparison,
             (if isConflict comparison then True else hasConflict),
             (if isFuzzy comparison then True else hasFuzzyMatch))))"

definition analyzeRecord ::
  "matcher_config \<Rightarrow> record_entry \<Rightarrow> nat \<Rightarrow> jstring list \<Rightarrow> analysis" where
  "analyzeRecord cfg record sheetCount columnsToCompare =
     (let presentInSheets = length (filter (\<lambda>p. p \<noteq> None) (r_sheetPresence record))
      in if presentInSheets < sheetCount
         then \<lparr>a_status = S_missing, a_presentIn = presentInSheets, a_totalSheets = sheetCount,
               a_matchScore = real presentInSheets / real sheetCount,
               a_missingInSheets =
                 Some (filter (\<lambda>idx. r_sheetPresence record ! idx = None)
                         [0..<length (r_sheetPresence record)]),
               a_columnComparisons = None\<rparr>
         else let (columnComparisons, totalScore, hasConflict, hasFuzzyMatch) =
                    fold (analyzeColumn cfg (r_sheetPresence record)) columnsToCompare
                      ([], 0, False, False);
                  avgScore = (if length columnsToCompare > 0
                              then totalScore / real (length columnsToCompare) else 1);
                  st = (if hasConflict \<and> avgScore < 5 / 10 then S_conflict
                        else if avgScore \<ge> 95 / 100 then S_matched
                        else if avgScore \<ge> similarThreshold cfg then S_similar
                        else S_conflict)
              in \<lparr>a_status = st, a_presentIn = presentInSheets, a_totalSheets = sheetCount,
                  a_matchScore = avgScore, a_missingInSheets = None,
                  a_columnComparisons = Some columnComparisons\<rparr>)"

definition addRow ::
  "nat \<Rightarrow> jstring \<Rightarrow> nat \<Rightarrow> comparison_sheet \<Rightarrow> nat \<times> row \<Rightarrow>
   (jstring \<times> record_entry) list \<Rightarrow> (jstring \<times> record_entry) list" where
  \<comment> \<open>the body of \<open>sheet.rows.forEach\<close>; \<open>recordMap\<close> is a Map, in insertion order\<close>
  "addRow sheetCount keyColumn sheetIndex sheet ir recordMap =
     (case ir of (rowIndex, row) \<Rightarrow>
        (let keyValue = getProp row keyColumn
         in if keyValue = Undefined \<or> keyValue = Null \<or> trim (String_js keyValue) = []
            then recordMap
            else let keyStr = trim (String_js keyValue);
                     recordMap' =
                       (if keyStr \<in> fst ` set recordMap then recordMap
                        else recordMap @
                          [(keyStr, \<lparr>r_key = keyStr, r_occurrences = [],
                                     r_sheetPresence = replicate sheetCount None,
                                     r_status = S_unknown, r_analysis = None\<rparr>)])
                 in map (\<lambda>(k, record).
                           if k = keyStr
                           then (k, record
                                  \<lparr>r_occurrences := r_occurrences record @
                                     [\<lparr>o_sheetIndex = sheetIndex, o_sheetName = cs_label sheet,
                                       o_row = row, o_rowIndex = rowIndex\<rparr>],
                                   r_sheetPresence := (r_sheetPresence record)[sheetIndex := Some row]\<rparr>)
                           else (k, record))
                      recordMap'))"

definition addSheet ::
  "nat \<Rightarrow> jstring \<Rightarrow> nat \<times> comparison_sheet \<Rightarrow>
   (jstring \<times> record_entry) list \<Rightarrow> (jstring \<times> record_entry) list" where
  "addSheet sheetCount keyColumn isheet recordMap =
     (case isheet of (sheetIndex, sheet) \<Rightarrow>
        fold (addRow sheetCount keyColumn sheetIndex sheet) (enumerate 0 (cs_rows sheet)) recordMap)"

definition categorize ::
  "matcher_config \<Rightarrow> nat \<Rightarrow> jstring list \<Rightarrow> jstring \<times> record_entry \<Rightarrow> results \<Rightarrow> results" where
  \<comment> \<open>the body of \<open>recordMap.forEach\<close>\<close>
  "categorize cfg sheetCount columnsToCompare kr res =
     (let anl = analyzeRecord cfg (snd kr) sheetCount columnsToCompare;
          record = (snd kr)\<lparr>r_status := a_status anl, r_analysis := Some anl\<rparr>;
          res' = (case a_status anl of
                    S_matched \<Rightarrow> res\<lparr>exactMatches := exactMatches res @ [record]\<rparr>
                  | S_similar \<Rightarrow> res\<lparr>fuzzyMatches := fuzzyMatches res @ [record]\<rparr>
                  | S_missing \<Rightarrow> res\<lparr>differences := differences res @ [record]\<rparr>
                  | S_conflict \<Rightarrow> res\<lparr>conflicts := conflicts res @ [record]\<rparr>
                  | S_unknown \<Rightarrow> res)
      in res'\<lparr>allRecords := allRecords res' @ [record]\<rparr>)"

definition compareSheets ::
  "matcher_config \<Rightarrow> comparison_sheet list \<Rightarrow> jstring \<Rightarrow> compare_options \<Rightarrow>
   error + (report \<times> matcher_config)" where
  \<comment> \<open>the result is paired with the Matcher configuration the call leaves behind\<close>
  "compareSheets cfg0 sheets keyColumn opts =
     (if length sheets < 2 then Inl AtLeastTwoFiles
      else let thr = (case threshold opts of None \<Rightarrow> 75 / 100 | Some t \<Rightarrow> t);
               cfg = cfg0\<lparr>similarThreshold := thr\<rparr>;
               allColumns = newSet (concat (map (\<lambda>sheet. map h_name (cs_headers sheet)) sheets));
               recordMap = fold (addSheet (length sheets) keyColumn) (enumerate 0 sheets) [];
               columnsToCompare =
                 (case compareColumns opts of
                    Some cols \<Rightarrow> cols
                  | None \<Rightarrow> filter (\<lambda>c. c \<noteq> keyColumn) allColumns);
               res = fold (categorize cfg (length sheets) columnsToCompare) recordMap
                       \<lparr>exactMatches = [], fuzzyMatches = [], differences = [], conflicts = [],
                        allRecords = []\<rparr>;
               summ = \<lparr>sm_totalRecords = length recordMap,
                       sm_exactMatches = length (exactMatches res),
                       sm_fuzzyMatches = length (fuzzyMatches res),
                       sm_differences = length (differences res),
                       sm_conflicts = length (conflicts res),
                       sm_sheetsCompared = length sheets,
                       sm_keyColumn = keyColumn,
                       sm_columnsCompared = length columnsToCompare\<rparr>
           in Inr (\<lparr>rp_results = res, rp_summary = summ,
                     rp_sheets = map (\<lambda>s. (cs_label s, cs_rowCount s)) sheets,
                     rp_keyColumn = keyColumn, rp_columns = allColumns\<rparr>, cfg))"


section \<open>KeyDetector\<close>






























section \<open>FileParser\<close>

record parsed_sheet =
  ps_name :: jstring
  ps_headers :: "header list"
  ps_rows :: "row list"
  ps_rowCount :: nat
  ps_columnCount :: nat

record parsed_file =
  pf_fileName :: jstring
  pf_sheets :: "parsed_sheet list"
  pf_sheetCount :: nat
  pf_totalRows :: nat

text \<open>
  The spreadsheet library is not part of the repository. A workbook is modelled by what
  \<open>extractWorkbookData\<close> reads of it: for every name of \<open>workbook.SheetNames\<close>, in order,
  the array of arrays that \<open>XLSX.utils.sheet_to_json\<close> returns for that sheet (with
  \<open>header: 1\<close>: one array of cells per row, the header row first).
\<close>

type_synonym workbook = "(jstring \<times> jsval list list) list"

definition makeHeader :: "nat \<times> jsval \<Rightarrow> header" where
  "makeHeader ih =
     (case ih of (i, h) \<Rightarrow>
        \<lparr>h_index = i,
         h_name = trim (String_js (if truthy h then h else Str (js ''Column '' @ digitsOf (i + 1)))),
         h_originalName = h\<rparr>)"

definition makeRow :: "header list \<Rightarrow> nat \<times> jsval list \<Rightarrow> row" where
  "makeRow hdrs ir =
     (case ir of (rowIndex, cells) \<Rightarrow>
        setProp (js ''_rowIndex'') (Num (int rowIndex))
          (fold (\<lambda>(colIndex, hdr) rowData.
                   setProp (h_name hdr)
                     (if colIndex < length cells \<and> cells ! colIndex \<noteq> Undefined
                      then cells ! colIndex else Str [])
                     rowData)
             (enumerate 0 hdrs) []))"

definition extractSheet :: "jstring \<times> jsval list list \<Rightarrow> parsed_sheet list \<Rightarrow> parsed_sheet list" where
  \<comment> \<open>the body of the loop over \<open>workbook.SheetNames\<close>\<close>
  "extractSheet nd sheets =
     (case nd of (sheetName, jsonData) \<Rightarrow>
        if length jsonData = 0 then sheets
        else let hdrs = map makeHeader (enumerate 0 (hd jsonData));
                 rws = map (makeRow hdrs) (enumerate 0 (tl jsonData))
             in sheets @ [\<lparr>ps_name = sheetName, ps_headers = hdrs, ps_rows = rws,
                            ps_rowCount = length rws, ps_columnCount = length hdrs\<rparr>])"

definition extractWorkbookData :: "workbook \<Rightarrow> jstring \<Rightarrow> parsed_file" where
  "extractWorkbookData wb fileName =
     (let sheets = fold extractSheet wb []
      in \<lparr>pf_fileName = fileName, pf_sheets = sheets, pf_sheetCount = length sheets,
          pf_totalRows = fold (\<lambda>s sum. sum + ps_rowCount s) sheets 0\<rparr>)"

record prepared =
  pr_sheets :: "comparison_sheet list"
  pr_sheetCount :: nat
  pr_commonColumns :: "jstring list"

definition findCommonColumns :: "comparison_sheet list \<Rightarrow> jstring list" where
  "findCommonColumns sheets =
     (if length sheets = 0 then []
      else let columnSets = map (\<lambda>sheet. newSet (map (\<lambda>h. toLowerCase (h_name h)) (cs_headers sheet))) sheets
           in filter (\<lambda>col. list_all (\<lambda>cols. col \<in> set cols) columnSets) (hd columnSets))"

definition prepareSheet :: "nat \<Rightarrow> parsed_file \<Rightarrow> nat \<times> parsed_sheet \<Rightarrow> comparison_sheet" where
  \<comment> \<open>the object pushed for one sheet of one file\<close>
  "prepareSheet fileIndex file isheet =
     (case isheet of (sheetIndex, sheet) \<Rightarrow>
        \<lparr>cs_id = js ''file'' @ digitsOf fileIndex @ js ''_sheet'' @ digitsOf sheetIndex,
         cs_label = (if length (pf_sheets file) > 1
                     then pf_fileName file @ js '' - '' @ ps_name sheet
                     else pf_fileName file),
         cs_fileName = pf_fileName file,
         cs_sheetName = ps_name sheet,
         cs_headers = ps_headers sheet,
         cs_rows = ps_rows sheet,
         cs_rowCount = ps_rowCount sheet\<rparr>)"

definition prepareFile :: "nat \<times> parsed_file \<Rightarrow> comparison_sheet list \<Rightarrow> comparison_sheet list" where
  \<comment> \<open>the body of \<open>parsedFiles.forEach\<close>\<close>
  "prepareFile ifile allSheets =
     (case ifile of (fileIndex, file) \<Rightarrow>
        fold (\<lambda>isheet acc. acc @ [prepareSheet fileIndex file isheet])
          (enumerate 0 (pf_sheets file)) allSheets)"

definition prepareForComparison :: "parsed_file list \<Rightarrow> prepared" where
  "prepareForComparison parsedFiles =
     (let allSheets = fold prepareFile (enumerate 0 parsedFiles) []
      in \<lparr>pr_sheets = allSheets, pr_sheetCount = length allSheets,
          pr_commonColumns = findCommonColumns allSheets\<rparr>)"


section \<open>Notions used in the statements and proofs\<close>

fun wsNormal :: "jstring \<Rightarrow> bool" where
  \<comment> \<open>every white-space unit is a space, and no two of them are adjacent\<close>
  "wsNormal [] = True"
| "wsNormal [c] = (if isWhiteSpace c then c = 0x20 else True)"
| "wsNormal (c # d # cs) =
     ((if isWhiteSpace c then c = 0x20 \<and> \<not> isWhiteSpace d else True) \<and> wsNormal (d # cs))"

definition variant_chars :: "jschar set" where
  \<comment> \<open>the units that \<open>normalize_text\<close> replaces or removes\<close>
  "variant_chars = fst ` set (alef @ yaa @ taa @ waw) \<union> set remove_chars"

definition substitute :: "jstring \<Rightarrow> jstring" where
  \<comment> \<open>the four mapping loops and the removal loop of \<open>normalize_text\<close>\<close>
  "substitute s =
     fold removeChar remove_chars
       (applyMapping waw (applyMapping taa (applyMapping yaa (applyMapping alef s))))"




definition keyless :: "jstring \<Rightarrow> row \<Rightarrow> bool" where
  \<comment> \<open>the key-column value of the row is absent, empty or white space only\<close>
  "keyless keyColumn row =
     (getProp row keyColumn = Undefined \<or> getProp row keyColumn = Null \<or>
      trim (String_js (getProp row keyColumn)) = [])"

definition classified :: "matcher_config \<Rightarrow> nat \<Rightarrow> jstring list \<Rightarrow> jstring \<times> record_entry \<Rightarrow> record_entry" where
  \<comment> \<open>a record of the map after \<open>record.status = analysis.status; record.analysis = analysis\<close>\<close>
  "classified cfg sheetCount cols kr =
     (snd kr)\<lparr>r_status := a_status (analyzeRecord cfg (snd kr) sheetCount cols),
              r_analysis := Some (analyzeRecord cfg (snd kr) sheetCount cols)\<rparr>"

definition recordMapOf :: "comparison_sheet list \<Rightarrow> jstring \<Rightarrow> (jstring \<times> record_entry) list" where
  \<comment> \<open>\<open>recordMap\<close> when the loop over the sheets has ended\<close>
  "recordMapOf sheets keyColumn = fold (addSheet (length sheets) keyColumn) (enumerate 0 sheets) []"

definition buckets :: "results \<Rightarrow> record_entry list" where
  \<comment> \<open>the four category lists, one after the other\<close>
  "buckets res = exactMatches res @ fuzzyMatches res @ differences res @ conflicts res"

definition touched :: "nat \<Rightarrow> jstring \<Rightarrow> row \<Rightarrow> nat \<Rightarrow> record_entry \<Rightarrow> record_entry" where
  \<comment> \<open>a record after \<open>occurrences.push\<close> and the assignment to \<open>sheetPresence[sheetIndex]\<close>\<close>
  "touched sheetIndex lbl row rowIndex record =
     record\<lparr>r_occurrences := r_occurrences record @
               [\<lparr>o_sheetIndex = sheetIndex, o_sheetName = lbl, o_row = row, o_rowIndex = rowIndex\<rparr>],
            r_sheetPresence := (r_sheetPresence record)[sheetIndex := Some row]\<rparr>"

definition freshRecord :: "nat \<Rightarrow> jstring \<Rightarrow> record_entry" where
  "freshRecord sheetCount keyStr =
     \<lparr>r_key = keyStr, r_occurrences = [], r_sheetPresence = replicate sheetCount None,
      r_status = S_unknown, r_analysis = None\<rparr>"

definition demo_sheetA :: comparison_sheet where
  "demo_sheetA =
     \<lparr>cs_id = js ''file0_sheet0'', cs_label = js ''a.csv'', cs_fileName = js ''a.csv'',
      cs_sheetName = js ''S'',
      cs_headers = [\<lparr>h_index = 0, h_name = js ''id'', h_originalName = Str (js ''id'')\<rparr>],
      cs_rows = [[(js ''id'', Num 7), (js ''_rowIndex'', Num 0)],
                 [(js ''id'', Str (js '' '')), (js ''_rowIndex'', Num 1)]],
      cs_rowCount = 2\<rparr>"

definition demo_sheetB :: comparison_sheet where
  "demo_sheetB =
     \<lparr>cs_id = js ''file1_sheet0'', cs_label = js ''b.csv'', cs_fileName = js ''b.csv'',
      cs_sheetName = js ''S'',
      cs_headers = [\<lparr>h_index = 0, h_name = js ''id'', h_originalName = Str (js ''id'')\<rparr>],
      cs_rows = [[(js ''id'', Str (js ''7 '')), (js ''_rowIndex'', Num 0)],
                 [(js ''id'', Str (js ''8'')), (js ''_rowIndex'', Num 1)]],
      cs_rowCount = 2\<rparr>"





definition expectedLabel :: "parsed_file \<Rightarrow> parsed_sheet \<Rightarrow> jstring" where
  \<comment> \<open>the label of a sheet: the file name alone for the only sheet of a file\<close>
  "expectedLabel file sheet =
     (if length (pf_sheets file) = 1 then pf_fileName file
      else pf_fileName file @ js '' - '' @ ps_name sheet)"


fun editDistance :: "jstring \<Rightarrow> jstring \<Rightarrow> nat" where
  \<comment> \<open>the recurrence of the matrix, on the reversed prefixes of the two texts\<close>
  "editDistance [] ys = length ys"
| "editDistance xs [] = length xs"
| "editDistance (x # xs) (y # ys) =
     (if y = x then editDistance xs ys
      else min (editDistance xs ys + 1)
             (min (editDistance xs (y # ys) + 1) (editDistance (x # xs) ys + 1)))"


fun jaro_transpositions_checked :: "(bool \<times> jschar) list \<Rightarrow> (bool \<times> jschar) list \<Rightarrow> nat option" where
  \<comment> \<open>\<open>jaro_transpositions\<close> with the case made explicit in which \<open>while (!bMatches[k]) k++\<close>
      would run past the end of \<open>b\<close> and never stop: \<open>None\<close>\<close>
  "jaro_transpositions_checked [] bs = Some 0"
| "jaro_transpositions_checked ((am, ac) # as) bs =
     (if \<not> am then jaro_transpositions_checked as bs
      else (case dropWhile (\<lambda>(bm, bc). \<not> bm) bs of
              [] \<Rightarrow> None
            | (bm, bc) # bs' \<Rightarrow>
                map_option (\<lambda>t. (if ac \<noteq> bc then 1 else 0) + t)
                  (jaro_transpositions_checked as bs')))"

definition jaro_marks :: "jstring \<Rightarrow> jstring \<Rightarrow> bool list \<times> bool list \<times> nat" where
  \<comment> \<open>\<open>aMatches\<close>, \<open>bMatches\<close> and \<open>matches\<close> when the first loop of \<open>jaro\<close> has ended\<close>
  "jaro_marks a b =
     fold (jaro_step a b (int (max (length a) (length b) div 2) - 1)) [0..<length a]
       (replicate (length a) False, replicate (length b) False, 0)"

section \<open>Normalisation is idempotent\<close>

lemma collapseWS_head:
  "cs = [] \<or> \<not> isWhiteSpace (hd cs) \<Longrightarrow> collapseWS cs = [] \<or> \<not> isWhiteSpace (hd (collapseWS cs))"
  by (cases cs) auto

lemma dropWhile_head: "dropWhile P cs = [] \<or> \<not> P (hd (dropWhile P cs))"
  by (induction cs) auto

lemma wsNormal_Cons:
  "wsNormal (c # cs) =
     ((if isWhiteSpace c then c = 0x20 \<and> (cs = [] \<or> \<not> isWhiteSpace (hd cs)) else True) \<and> wsNormal cs)"
  by (cases cs) auto

lemma wsNormal_collapseWS: "wsNormal (collapseWS s)"
proof (induction s rule: collapseWS.induct)
  case 1
  show ?case by simp
next
  case (2 c cs)
  show ?case
  proof (cases "isWhiteSpace c")
    case True
    have "collapseWS (dropWhile isWhiteSpace cs) = [] \<or>
          \<not> isWhiteSpace (hd (collapseWS (dropWhile isWhiteSpace cs)))"
      by (rule collapseWS_head) (rule dropWhile_head)
    with True 2 show ?thesis by (simp add: wsNormal_Cons)
  next
    case False
    with 2 show ?thesis by (simp add: wsNormal_Cons)
  qed
qed

lemma collapseWS_wsNormal: "wsNormal s \<Longrightarrow> collapseWS s = s"
proof (induction s rule: wsNormal.induct)
  case 1
  show ?case by simp
next
  case (2 c)
  then show ?case by simp
next
  case (3 c d cs)
  then show ?case by (cases "isWhiteSpace c") auto
qed

lemma wsNormal_dropWhile: "wsNormal s \<Longrightarrow> wsNormal (dropWhile P s)"
  by (induction s) (auto simp: wsNormal_Cons split: if_splits)

lemma trimEnd_Cons:
  "trimEnd (c # cs) =
     (if trimEnd cs = [] then (if isWhiteSpace c then [] else [c]) else c # trimEnd cs)"
proof (cases "\<forall>x\<in>set cs. isWhiteSpace x")
  case True
  then have "dropWhile isWhiteSpace (rev cs) = []" by simp
  moreover from True have "dropWhile isWhiteSpace (rev cs @ [c]) = dropWhile isWhiteSpace [c]"
    by (intro dropWhile_append2) simp
  ultimately show ?thesis by (simp add: trimEnd_def)
next
  case False
  then obtain x where x: "x \<in> set (rev cs)" "\<not> isWhiteSpace x" by auto
  then have "dropWhile isWhiteSpace (rev cs @ [c]) = dropWhile isWhiteSpace (rev cs) @ [c]"
    by (rule dropWhile_append1)
  moreover from x have "dropWhile isWhiteSpace (rev cs) \<noteq> []" by auto
  ultimately show ?thesis by (simp add: trimEnd_def)
qed

lemma trimEnd_Nil [simp]: "trimEnd [] = []"
  by (simp add: trimEnd_def)

lemma trimEnd_hd: "trimEnd s \<noteq> [] \<Longrightarrow> hd (trimEnd s) = hd s"
  by (cases s) (auto simp: trimEnd_Cons)

lemma wsNormal_trimEnd: "wsNormal s \<Longrightarrow> wsNormal (trimEnd s)"
proof (induction s)
  case Nil
  show ?case by simp
next
  case (Cons c cs)
  then have n: "wsNormal (trimEnd cs)" by (simp add: wsNormal_Cons)
  show ?case
  proof (cases "trimEnd cs = []")
    case True
    then show ?thesis by (simp add: trimEnd_Cons)
  next
    case False
    then have "cs \<noteq> []" by auto
    with False Cons.prems n show ?thesis
      by (auto simp: trimEnd_Cons wsNormal_Cons trimEnd_hd split: if_splits)
  qed
qed

lemma trimEnd_idem: "trimEnd (trimEnd s) = trimEnd s"
  by (simp add: trimEnd_def)

lemma dropWhile_trimEnd:
  "s = [] \<or> \<not> isWhiteSpace (hd s) \<Longrightarrow> dropWhile isWhiteSpace (trimEnd s) = trimEnd s"
  by (cases s) (auto simp: trimEnd_Cons)

lemma trim_idem: "trim (trim s) = trim s"
proof -
  have "dropWhile isWhiteSpace (trimEnd (dropWhile isWhiteSpace s)) =
        trimEnd (dropWhile isWhiteSpace s)"
    by (rule dropWhile_trimEnd) (rule dropWhile_head)
  then show ?thesis by (simp add: trim_def trimEnd_idem)
qed

lemma wsNormal_trim: "wsNormal s \<Longrightarrow> wsNormal (trim s)"
  by (simp add: trim_def wsNormal_trimEnd wsNormal_dropWhile)

lemma set_trimEnd: "set (trimEnd s) \<subseteq> set s"
  using set_dropWhileD [of _ isWhiteSpace "rev s"] by (auto simp: trimEnd_def)

lemma set_trim: "set (trim s) \<subseteq> set s"
  using set_trimEnd [of "dropWhile isWhiteSpace s"] set_dropWhileD [of _ isWhiteSpace s]
  by (auto simp: trim_def)

lemma set_collapseWS: "set (collapseWS s) \<subseteq> insert 0x20 (set s)"
proof (induction s rule: collapseWS.induct)
  case 1
  show ?case by simp
next
  case (2 c cs)
  then show ?case using set_dropWhileD [of _ isWhiteSpace cs] by (auto split: if_splits)
qed

lemma replaceChar_absent: "from \<notin> set s \<Longrightarrow> replaceChar from to s = s"
  by (induction s) (auto simp: replaceChar_def)

lemma removeChar_absent: "ch \<notin> set s \<Longrightarrow> removeChar ch s = s"
  by (induction s) (auto simp: removeChar_def)

lemma substitute_absent: "set s \<inter> variant_chars = {} \<Longrightarrow> substitute s = s"
  by (simp add: substitute_def applyMapping_def alef_def yaa_def taa_def waw_def
      remove_chars_def variant_chars_def replaceChar_absent removeChar_absent)

lemma in_set_replaceChar:
  "x \<in> set (replaceChar from to s) \<longleftrightarrow> (x = to \<and> from \<in> set s) \<or> (x \<noteq> from \<and> x \<in> set s)"
  by (auto simp: replaceChar_def)

lemma in_set_removeChar: "x \<in> set (removeChar ch s) \<longleftrightarrow> x \<noteq> ch \<and> x \<in> set s"
  by (auto simp: removeChar_def)

lemma variant_chars_eq:
  "variant_chars = {0x621, 0x64B, 0x64C, 0x64D, 0x64E, 0x64F, 0x650, 0x651, 0x652, 0x640,
                    0x623, 0x625, 0x622, 0x671, 0x672, 0x673, 0x649, 0x626, 0x629, 0x624}"
  by (simp add: variant_chars_def alef_def yaa_def taa_def waw_def remove_chars_def)

lemma substitute_clears: "set (substitute s) \<inter> variant_chars = {}"
proof -
  have "x \<notin> set (substitute s)" if "x \<in> variant_chars" for x
    using that unfolding variant_chars_eq substitute_def applyMapping_def alef_def yaa_def
      taa_def waw_def remove_chars_def
    by (elim insertE emptyE) (simp_all add: in_set_replaceChar in_set_removeChar)
  then show ?thesis by blast
qed

lemma space_not_variant: "0x20 \<notin> variant_chars"
  by (simp add: variant_chars_def alef_def yaa_def taa_def waw_def remove_chars_def)

lemma substitute_Nil: "substitute [] = []"
  by (simp add: substitute_def applyMapping_def alef_def yaa_def taa_def waw_def
      remove_chars_def replaceChar_def removeChar_def)

lemma normalize_text_Str: "normalize_text (Str s) = trim (collapseWS (substitute s))"
proof (cases "s = []")
  case True
  then show ?thesis by (simp add: normalize_text_def substitute_Nil trim_def)
next
  case False
  then show ?thesis by (simp add: normalize_text_def substitute_def)
qed

text \<open>
  C9. For every input, text or not, normalising the result of \<open>normalize\<close> once more
  returns it unchanged: \<open>normalize(normalize(x)) = normalize(x)\<close>.
\<close>

theorem normalize_idempotent: "normalize_text (Str (normalize_text x)) = normalize_text x"
proof (cases x)
  case (Str s)
  let ?r = "trim (collapseWS (substitute s))"
  have "set ?r \<subseteq> insert 0x20 (set (substitute s))"
    using set_trim [of "collapseWS (substitute s)"] set_collapseWS [of "substitute s"] by blast
  with substitute_clears [of s] space_not_variant have "set ?r \<inter> variant_chars = {}"
    by blast
  then have sub: "substitute ?r = ?r" by (rule substitute_absent)
  have "wsNormal ?r" by (simp add: wsNormal_trim wsNormal_collapseWS)
  then have col: "collapseWS ?r = ?r" by (rule collapseWS_wsNormal)
  have "normalize_text (Str ?r) = ?r"
    by (simp only: normalize_text_Str sub col trim_idem)
  with Str show ?thesis by (simp only: normalize_text_Str)
qed (simp_all add: normalize_text_def)


section \<open>Numeric matching at 100 against 101, 110 and 200\<close>

lemma exp_upper_step:
  assumes "exp z \<le> (r :: real)" and "r * r \<le> r'"
  shows "exp (2 * z) \<le> r'"
proof -
  have "exp (2 * z) = exp z * exp z" by (simp add: exp_double power2_eq_square)
  also have "\<dots> \<le> r * r" using assms(1) by (intro mult_mono) (auto intro: order_trans [OF exp_ge_zero])
  finally show ?thesis using assms(2) by simp
qed

lemma exp_lower_step:
  assumes "(r :: real) \<le> exp z" and "0 \<le> r" and "r' \<le> r * r"
  shows "r' \<le> exp (2 * z)"
proof -
  have "r * r \<le> exp z * exp z" using assms(1,2) by (intro mult_mono) auto
  also have "\<dots> = exp (2 * z)" by (simp add: exp_double power2_eq_square)
  finally show ?thesis using assms(3) by simp
qed

lemma exp_10_21_bounds: "(1609922 / 1000000 :: real) < exp (10 / 21) \<and> exp (10 / 21 :: real) < 1610019 / 1000000"
proof -
  have u0: "exp (5 / 21504) \<le> (200046513789 / 200000000000 :: real)"
    using exp_bound [of "5 / 21504"] by (simp add: power2_eq_square)
  have u1: "exp (5 / 10752) \<le> (1000465191979 / 1000000000000 :: real)"
    using exp_upper_step [OF u0, of "1000465191979 / 1000000000000"] by simp
  have u2: "exp (5 / 5376) \<le> (500465300181 / 500000000000 :: real)"
    using exp_upper_step [OF u1, of "500465300181 / 500000000000"] by simp
  have u3: "exp (5 / 2688) \<le> (500931033371 / 500000000000 :: real)"
    using exp_upper_step [OF u2, of "500931033371 / 500000000000"] by simp
  have u4: "exp (5 / 1344) \<le> (1003727600777 / 1000000000000 :: real)"
    using exp_upper_step [OF u3, of "1003727600777 / 1000000000000"] by simp
  have u5: "exp (5 / 672) \<le> (503734548281 / 500000000000 :: real)"
    using exp_upper_step [OF u4, of "503734548281 / 500000000000"] by simp
  have u6: "exp (5 / 336) \<le> (63437123783 / 62500000000 :: real)"
    using exp_upper_step [OF u5, of "63437123783 / 62500000000"] by simp
  have u7: "exp (5 / 168) \<le> (1030212780509 / 1000000000000 :: real)"
    using exp_upper_step [OF u6, of "1030212780509 / 1000000000000"] by simp
  have u8: "exp (5 / 84) \<le> (1698141397 / 1600000000 :: real)"
    using exp_upper_step [OF u7, of "1698141397 / 1600000000"] by simp
  have u9: "exp (5 / 42) \<le> (281609785567 / 250000000000 :: real)"
    using exp_upper_step [OF u8, of "281609785567 / 250000000000"] by simp
  have u10: "exp (5 / 21) \<le> (634432570617 / 500000000000 :: real)"
    using exp_upper_step [OF u9, of "634432570617 / 500000000000"] by simp
  have u11: "exp (10 / 21) \<le> (1610018746639 / 1000000000000 :: real)"
    using exp_upper_step [OF u10, of "1610018746639 / 1000000000000"] by simp
  have l0: "(1007468156533 / 1000000000000 :: real) \<le> exp (5 / 672)"
    using exp_lower_Taylor_quadratic [of "5 / 672"] by (simp add: power2_eq_square)
  have l1: "(253748021607 / 250000000000 :: real) \<le> exp (5 / 336)"
    using exp_lower_step [OF l0, of "253748021607 / 250000000000"] by simp
  have l2: "(1030208935511 / 1000000000000 :: real) \<le> exp (5 / 168)"
    using exp_lower_step [OF l1, of "1030208935511 / 1000000000000"] by simp
  have l3: "(530665225403 / 500000000000 :: real) \<le> exp (5 / 84)"
    using exp_lower_step [OF l2, of "530665225403 / 500000000000"] by simp
  have l4: "(70401395363 / 62500000000 :: real) \<le> exp (5 / 42)"
    using exp_lower_step [OF l3, of "70401395363 / 62500000000"] by simp
  have l5: "(634413628039 / 500000000000 :: real) \<le> exp (5 / 21)"
    using exp_lower_step [OF l4, of "634413628039 / 500000000000"] by simp
  have l6: "(804961302883 / 500000000000 :: real) \<le> exp (10 / 21)"
    using exp_lower_step [OF l5, of "804961302883 / 500000000000"] by simp
  from u11 l6 show ?thesis by simp
qed

lemma exp_10_3_bounds: "(28029 / 1000 :: real) < exp (10 / 3) \<and> exp (10 / 3 :: real) < 28070 / 1000"
proof -
  have v0: "exp (5 / 6144) \<le> (500407232179 / 500000000000 :: real)"
    using exp_bound [of "5 / 6144"] by (simp add: power2_eq_square)
  have v1: "exp (5 / 3072) \<le> (1001629592069 / 1000000000000 :: real)"
    using exp_upper_step [OF v0, of "1001629592069 / 1000000000000"] by simp
  have v2: "exp (5 / 1536) \<le> (1003261839709 / 1000000000000 :: real)"
    using exp_upper_step [OF v1, of "1003261839709 / 1000000000000"] by simp
  have v3: "exp (5 / 768) \<le> (1006534319017 / 1000000000000 :: real)"
    using exp_upper_step [OF v2, of "1006534319017 / 1000000000000"] by simp
  have v4: "exp (5 / 384) \<le> (3165972923 / 3125000000 :: real)"
    using exp_upper_step [OF v3, of "3165972923 / 3125000000"] by simp
  have v5: "exp (5 / 192) \<le> (205278915567 / 200000000000 :: real)"
    using exp_upper_step [OF v4, of "205278915567 / 200000000000"] by simp
  have v6: "exp (5 / 96) \<le> (105348582941 / 100000000000 :: real)"
    using exp_upper_step [OF v5, of "105348582941 / 100000000000"] by simp
  have v7: "exp (5 / 48) \<le> (17341131137 / 15625000000 :: real)"
    using exp_upper_step [OF v6, of "17341131137 / 15625000000"] by simp
  have v8: "exp (5 / 24) \<le> (615863970019 / 500000000000 :: real)"
    using exp_upper_step [OF v7, of "615863970019 / 500000000000"] by simp
  have v9: "exp (5 / 12) \<le> (1517153718271 / 1000000000000 :: real)"
    using exp_upper_step [OF v8, of "1517153718271 / 1000000000000"] by simp
  have v10: "exp (5 / 6) \<le> (35964928201 / 15625000000 :: real)"
    using exp_upper_step [OF v9, of "35964928201 / 15625000000"] by simp
  have v11: "exp (5 / 3) \<le> (5298077943821 / 1000000000000 :: real)"
    using exp_upper_step [OF v10, of "5298077943821 / 1000000000000"] by simp
  have v12: "exp (10 / 3) \<le> (28069629898803 / 1000000000000 :: real)"
    using exp_upper_step [OF v11, of "28069629898803 / 1000000000000"] by simp
  have w0: "(1013105604383 / 1000000000000 :: real) \<le> exp (5 / 384)"
    using exp_lower_Taylor_quadratic [of "5 / 384"] by (simp add: power2_eq_square)
  have w1: "(8018616919 / 7812500000 :: real) \<le> exp (5 / 192)"
    using exp_lower_step [OF w0, of "8018616919 / 7812500000"] by simp
  have w2: "(1053461992139 / 1000000000000 :: real) \<le> exp (5 / 96)"
    using exp_lower_step [OF w1, of "1053461992139 / 1000000000000"] by simp
  have w3: "(1109782168881 / 1000000000000 :: real) \<le> exp (5 / 48)"
    using exp_lower_step [OF w2, of "1109782168881 / 1000000000000"] by simp
  have w4: "(615808231183 / 500000000000 :: real) \<le> exp (5 / 24)"
    using exp_lower_step [OF w3, of "615808231183 / 500000000000"] by simp
  have w5: "(151687911037 / 100000000000 :: real) \<le> exp (5 / 12)"
    using exp_lower_step [OF w4, of "151687911037 / 100000000000"] by simp
  have w6: "(575230558869 / 250000000000 :: real) \<le> exp (5 / 6)"
    using exp_lower_step [OF w5, of "575230558869 / 250000000000"] by simp
  have w7: "(5294243133707 / 1000000000000 :: real) \<le> exp (5 / 3)"
    using exp_lower_step [OF w6, of "5294243133707 / 1000000000000"] by simp
  have w8: "(28029010358803 / 1000000000000 :: real) \<le> exp (10 / 3)"
    using exp_lower_step [OF w7, of "28029010358803 / 1000000000000"] by simp
  from v12 w8 show ?thesis by simp
qed

lemma reciprocal_bounds:
  assumes "(0 :: real) < l" and "l < e" and "e < u"
  shows "1 / u < 1 / e \<and> 1 / e < 1 / l"
proof -
  from assms have "0 < e" "0 < u" by simp_all
  with assms show ?thesis by (simp add: field_simps)
qed

lemma exp_minus_10_21: "(6211 / 10000 :: real) < exp (- (10 / 21)) \<and> exp (- (10 / 21) :: real) < 6212 / 10000"
proof -
  have "1 / (1610019 / 1000000) < 1 / exp (10 / 21 :: real) \<and>
        1 / exp (10 / 21 :: real) < 1 / (1609922 / 1000000)"
    by (rule reciprocal_bounds) (use exp_10_21_bounds in simp_all)
  then show ?thesis by (simp add: exp_minus inverse_eq_divide)
qed

lemma exp_minus_10_3: "(356 / 10000 :: real) < exp (- (10 / 3)) \<and> exp (- (10 / 3) :: real) < 357 / 10000"
proof -
  have "1 / (28070 / 1000) < 1 / exp (10 / 3 :: real) \<and>
        1 / exp (10 / 3 :: real) < 1 / (28029 / 1000)"
    by (rule reciprocal_bounds) (use exp_10_3_bounds in simp_all)
  then show ?thesis by (simp add: exp_minus inverse_eq_divide)
qed

text \<open>
  C8. With the default configuration (\<open>numericTolerance\<close> 0.01, \<open>weakMatchThreshold\<close> 0.6),
  \<open>numericMatch(100, 101)\<close> has type \<open>numeric_tolerance\<close>, score \<open>1 - 1/100.5\<close> (about
  0.99005) and is matched; \<open>numericMatch(100, 110)\<close> has type \<open>numeric\<close>, score
  \<open>exp (-(10/105) * 5)\<close> (about 0.622) and is matched; \<open>numericMatch(100, 200)\<close> has score
  \<open>exp (-(100/150) * 5)\<close> (about 0.036) and is not matched.
\<close>

theorem numericMatch_examples:
  "mtype (numericMatch default_config 100 101) = T_numeric_tolerance \<and>
   score (numericMatch default_config 100 101) = 1 - 1 / (1005 / 10) \<and>
   \<bar>score (numericMatch default_config 100 101) - 99005 / 100000\<bar> < 1 / 100000 \<and>
   matched (numericMatch default_config 100 101) \<and>
   mtype (numericMatch default_config 100 110) = T_numeric \<and>
   score (numericMatch default_config 100 110) = exp (- (10 / 105) * 5) \<and>
   \<bar>score (numericMatch default_config 100 110) - 622 / 1000\<bar> < 1 / 1000 \<and>
   matched (numericMatch default_config 100 110) \<and>
   mtype (numericMatch default_config 100 200) = T_numeric \<and>
   score (numericMatch default_config 100 200) = exp (- (100 / 150) * 5) \<and>
   \<bar>score (numericMatch default_config 100 200) - 36 / 1000\<bar> < 1 / 1000 \<and>
   \<not> matched (numericMatch default_config 100 200)"
proof -
  have a: "numericMatch default_config 100 101 =
             (plain_result (1 - 2 / 201) T_numeric_tolerance True)\<lparr>difference := Some 1\<rparr>"
    by (simp add: numericMatch_def default_config_def Let_def)
  have b: "numericMatch default_config 100 110 =
             (plain_result (exp (- (10 / 21))) T_numeric (6 / 10 \<le> exp (- (10 / 21) :: real)))
               \<lparr>difference := Some 10\<rparr>"
    by (simp add: numericMatch_def default_config_def Let_def)
  have c: "numericMatch default_config 100 200 =
             (plain_result (exp (- (10 / 3))) T_numeric (6 / 10 \<le> exp (- (10 / 3) :: real)))
               \<lparr>difference := Some 100\<rparr>"
    by (simp add: numericMatch_def default_config_def Let_def)
  from exp_minus_10_21 exp_minus_10_3 show ?thesis
    unfolding a b c by (simp add: plain_result_def abs_less_iff)
qed


section \<open>Scores of smartMatch: two evaluations\<close>

lemma c1_trim:
  "trim (js ''a b c d e f g hhhhhhx'') = js ''a b c d e f g hhhhhhx''"
  "trim (js ''a b c d e f g hhhhhhy'') = js ''a b c d e f g hhhhhhy''"
  by code_simp+

lemma c1_lower:
  "toLowerCase (js ''a b c d e f g hhhhhhx'') = js ''a b c d e f g hhhhhhx''"
  "toLowerCase (js ''a b c d e f g hhhhhhy'') = js ''a b c d e f g hhhhhhy''"
  by code_simp+

lemma c1_neq:
  "js ''a b c d e f g hhhhhhx'' \<noteq> js ''a b c d e f g hhhhhhy''"
  "js ''a b c d e f g hhhhhhx'' \<noteq> []"
  "js ''a b c d e f g hhhhhhy'' \<noteq> []"
  by code_simp+

lemma c1_num: "parseFloat (numericChars (js ''a b c d e f g hhhhhhx'')) = None"
  by code_simp

lemma c1_arabic:
  "\<not> isArabic (js ''a b c d e f g hhhhhhx'')"
  "\<not> isArabic (js ''a b c d e f g hhhhhhy'')"
  by code_simp+

lemma c1_scores:
  "levenshteinSimilarity (js ''a b c d e f g hhhhhhx'') (js ''a b c d e f g hhhhhhy'') = 20 / 21"
  "jaroWinkler (js ''a b c d e f g hhhhhhx'') (js ''a b c d e f g hhhhhhy'') = 103 / 105"
  "tokenSetRatio (js ''a b c d e f g hhhhhhx'') (js ''a b c d e f g hhhhhhy'') = 281 / 280"
  by code_simp+

text \<open>
  C1. The claim: every result of \<open>smartMatch\<close> has a score in the interval from 0 to 1, the
  token-set ratio included. On the two texts below, which share seven of their eight words
  and differ in one letter of the eighth, the token-set ratio is 281/280 and is the best of
  the three fuzzy scores, so the score \<open>smartMatch\<close> returns is above 1.
\<close>

theorem smartMatch_score_exceeds_one:
  "score (smartMatch default_config (Str (js ''a b c d e f g hhhhhhx''))
            (Str (js ''a b c d e f g hhhhhhy''))) = 281 / 280 \<and>
   algorithm (smartMatch default_config (Str (js ''a b c d e f g hhhhhhx''))
                (Str (js ''a b c d e f g hhhhhhy''))) = Some A_tokenSet \<and>
   tokenSetRatio (js ''a b c d e f g hhhhhhx'') (js ''a b c d e f g hhhhhhy'') > 1"
  by (simp add: smartMatch_def isNullish_def numericStage_def fuzzyMatch_def classify_def
      default_config_def c1_trim c1_lower c1_neq c1_num c1_arabic c1_scores)











section \<open>Symmetry of the Levenshtein similarity and of smartMatch\<close>

lemma editDistance_Nil2 [simp]: "editDistance xs [] = length xs"
  by (cases xs) simp_all

















section \<open>The status ladder of a record\<close>





section \<open>A record that is a conflict with no column flagged\<close>






section \<open>Records and buckets of a comparison report\<close>

lemma addRow_keyless: "keyless kc row \<Longrightarrow> addRow n kc si sh (ri, row) rm = rm"
  by (auto simp: addRow_def keyless_def Let_def)

lemma addRow_keyed:
  "\<not> keyless kc row \<Longrightarrow>
   addRow n kc si sh (ri, row) rm =
     map (\<lambda>(k, r). if k = trim (String_js (getProp row kc))
                    then (k, touched si (cs_label sh) row ri r) else (k, r))
       (if trim (String_js (getProp row kc)) \<in> fst ` set rm then rm
        else rm @ [(trim (String_js (getProp row kc)),
                    freshRecord n (trim (String_js (getProp row kc))))])"
  by (simp add: addRow_def keyless_def Let_def touched_def freshRecord_def case_prod_beta)

lemma addRow_invariant:
  assumes rm: "\<forall>(k, r)\<in>set rm. Q k r"
    and fresh: "\<And>k. \<not> keyless kc row \<Longrightarrow> k = trim (String_js (getProp row kc)) \<Longrightarrow> Q k (freshRecord n k)"
    and touch: "\<And>k r. \<not> keyless kc row \<Longrightarrow> Q k r \<Longrightarrow> Q k (touched si (cs_label sh) row ri r)"
  shows "\<forall>(k, r)\<in>set (addRow n kc si sh (ri, row) rm). Q k r"
proof (cases "keyless kc row")
  case True
  with rm show ?thesis by (simp add: addRow_keyless)
next
  case False
  with rm fresh touch show ?thesis
    by (auto simp: addRow_keyed split: if_splits)
qed

lemma fold_addRow_invariant:
  assumes "\<forall>(k, r)\<in>set rm. Q k r"
    and "\<And>k row. row \<in> set rows \<Longrightarrow> \<not> keyless kc row \<Longrightarrow> k = trim (String_js (getProp row kc)) \<Longrightarrow> Q k (freshRecord n k)"
    and "\<And>k r ri row. row \<in> set rows \<Longrightarrow> \<not> keyless kc row \<Longrightarrow> Q k r \<Longrightarrow> Q k (touched si (cs_label sh) row ri r)"
  shows "\<forall>(k, r)\<in>set (fold (addRow n kc si sh) (enumerate i rows) rm). Q k r"
  using assms
proof (induction rows arbitrary: rm i)
  case Nil
  then show ?case by simp
next
  case (Cons row rows)
  have "\<forall>(k, r)\<in>set (addRow n kc si sh (i, row) rm). Q k r"
    by (rule addRow_invariant) (use Cons.prems in auto)
  then have "\<forall>(k, r)\<in>set (fold (addRow n kc si sh) (enumerate (Suc i) rows) (addRow n kc si sh (i, row) rm)). Q k r"
    by (rule Cons.IH) (use Cons.prems in auto)
  then show ?case by simp
qed

lemma fold_addSheet_invariant:
  assumes "\<forall>(k, r)\<in>set rm. Q k r"
    and "\<And>k row. \<not> keyless kc row \<Longrightarrow> k = trim (String_js (getProp row kc)) \<Longrightarrow> Q k (freshRecord n k)"
    and "\<And>k r si lbl ri row. \<not> keyless kc row \<Longrightarrow> Q k r \<Longrightarrow> Q k (touched si lbl row ri r)"
  shows "\<forall>(k, r)\<in>set (fold (addSheet n kc) (enumerate i sheets) rm). Q k r"
  using assms(1)
proof (induction sheets arbitrary: rm i)
  case Nil
  then show ?case by simp
next
  case (Cons sh sheets)
  have "\<forall>(k, r)\<in>set (addSheet n kc (i, sh) rm). Q k r"
    unfolding addSheet_def prod.case
    by (rule fold_addRow_invariant) (use Cons.prems assms(2,3) in auto)
  then have "\<forall>(k, r)\<in>set (fold (addSheet n kc) (enumerate (Suc i) sheets) (addSheet n kc (i, sh) rm)). Q k r"
    by (rule Cons.IH)
  then show ?case by simp
qed

lemma addRow_distinct:
  "distinct (map fst rm) \<Longrightarrow> distinct (map fst (addRow n kc si sh (ri, row) rm))"
proof (cases "keyless kc row")
  case True
  assume "distinct (map fst rm)"
  with True show ?thesis by (simp add: addRow_keyless)
next
  case False
  let ?key = "trim (String_js (getProp row kc))"
  let ?f = "\<lambda>(k, r). if k = ?key then (k, touched si (cs_label sh) row ri r) else (k, r)"
  assume d: "distinct (map fst rm)"
  have fst: "map fst (map ?f xs) = map fst xs" for xs :: "(jstring \<times> record_entry) list"
    by (induction xs) auto
  from d show ?thesis
    by (auto simp: addRow_keyed [OF False] fst simp del: map_map)
qed

lemma fold_addRow_distinct:
  "distinct (map fst rm) \<Longrightarrow> distinct (map fst (fold (addRow n kc si sh) (enumerate i rows) rm))"
  by (induction rows arbitrary: rm i) (simp_all add: addRow_distinct)

lemma fold_addSheet_distinct:
  "distinct (map fst rm) \<Longrightarrow> distinct (map fst (fold (addSheet n kc) (enumerate i sheets) rm))"
  by (induction sheets arbitrary: rm i) (simp_all add: addSheet_def fold_addRow_distinct)

lemma categorize_eq:
  "categorize cfg n cols kr res =
     \<lparr>exactMatches = exactMatches res @ filter (\<lambda>r. r_status r = S_matched) [classified cfg n cols kr],
      fuzzyMatches = fuzzyMatches res @ filter (\<lambda>r. r_status r = S_similar) [classified cfg n cols kr],
      differences = differences res @ filter (\<lambda>r. r_status r = S_missing) [classified cfg n cols kr],
      conflicts = conflicts res @ filter (\<lambda>r. r_status r = S_conflict) [classified cfg n cols kr],
      allRecords = allRecords res @ [classified cfg n cols kr]\<rparr>"
  by (cases "a_status (analyzeRecord cfg (snd kr) n cols)")
    (simp_all add: categorize_def classified_def Let_def)

lemma fold_categorize:
  "fold (categorize cfg n cols) rm res =
     \<lparr>exactMatches = exactMatches res @ filter (\<lambda>r. r_status r = S_matched) (map (classified cfg n cols) rm),
      fuzzyMatches = fuzzyMatches res @ filter (\<lambda>r. r_status r = S_similar) (map (classified cfg n cols) rm),
      differences = differences res @ filter (\<lambda>r. r_status r = S_missing) (map (classified cfg n cols) rm),
      conflicts = conflicts res @ filter (\<lambda>r. r_status r = S_conflict) (map (classified cfg n cols) rm),
      allRecords = allRecords res @ map (classified cfg n cols) rm\<rparr>"
  (is "?lhs rm res = ?rhs rm res")
proof (induction rm arbitrary: res)
  case Nil
  show ?case by simp
next
  case (Cons kr rm)
  have "?lhs (kr # rm) res = ?lhs rm (categorize cfg n cols kr res)"
    by simp
  also have "\<dots> = ?rhs rm (categorize cfg n cols kr res)"
    by (rule Cons.IH)
  also have "\<dots> = ?rhs (kr # rm) res"
    by (simp add: categorize_eq)
  finally show ?case .
qed

lemma analyzeRecord_status: "a_status (analyzeRecord cfg record n cols) \<noteq> S_unknown"
  by (simp add: analyzeRecord_def Let_def case_prod_beta)

lemma classified_fields:
  "r_key (classified cfg n cols kr) = r_key (snd kr)"
  "r_occurrences (classified cfg n cols kr) = r_occurrences (snd kr)"
  "r_sheetPresence (classified cfg n cols kr) = r_sheetPresence (snd kr)"
  "r_status (classified cfg n cols kr) \<noteq> S_unknown"
  by (simp_all add: classified_def analyzeRecord_status)

lemma compareSheets_Inr:
  assumes "compareSheets cfg0 sheets kc opts = Inr (rep, cfg)"
  shows "\<exists>cols. rp_results rep =
           fold (categorize cfg (length sheets) cols) (recordMapOf sheets kc)
             \<lparr>exactMatches = [], fuzzyMatches = [], differences = [], conflicts = [],
              allRecords = []\<rparr> \<and>
         sm_totalRecords (rp_summary rep) = length (recordMapOf sheets kc) \<and>
         sm_exactMatches (rp_summary rep) = length (exactMatches (rp_results rep)) \<and>
         sm_fuzzyMatches (rp_summary rep) = length (fuzzyMatches (rp_results rep)) \<and>
         sm_differences (rp_summary rep) = length (differences (rp_results rep)) \<and>
         sm_conflicts (rp_summary rep) = length (conflicts (rp_results rep))"
proof (cases "length sheets < 2")
  case True
  with assms show ?thesis by (simp add: compareSheets_def)
next
  case False
  with assms show ?thesis
    by (auto simp: compareSheets_def Let_def recordMapOf_def)
qed

lemma results_of_report:
  assumes "compareSheets cfg0 sheets kc opts = Inr (rep, cfg)"
  obtains cols where
    "allRecords (rp_results rep) = map (classified cfg (length sheets) cols) (recordMapOf sheets kc)"
    "exactMatches (rp_results rep) = filter (\<lambda>r. r_status r = S_matched) (allRecords (rp_results rep))"
    "fuzzyMatches (rp_results rep) = filter (\<lambda>r. r_status r = S_similar) (allRecords (rp_results rep))"
    "differences (rp_results rep) = filter (\<lambda>r. r_status r = S_missing) (allRecords (rp_results rep))"
    "conflicts (rp_results rep) = filter (\<lambda>r. r_status r = S_conflict) (allRecords (rp_results rep))"
proof -
  from compareSheets_Inr [OF assms] obtain cols where
    "rp_results rep =
       fold (categorize cfg (length sheets) cols) (recordMapOf sheets kc)
         \<lparr>exactMatches = [], fuzzyMatches = [], differences = [], conflicts = [], allRecords = []\<rparr>"
    by blast
  then have "rp_results rep =
     \<lparr>exactMatches = filter (\<lambda>r. r_status r = S_matched) (map (classified cfg (length sheets) cols) (recordMapOf sheets kc)),
      fuzzyMatches = filter (\<lambda>r. r_status r = S_similar) (map (classified cfg (length sheets) cols) (recordMapOf sheets kc)),
      differences = filter (\<lambda>r. r_status r = S_missing) (map (classified cfg (length sheets) cols) (recordMapOf sheets kc)),
      conflicts = filter (\<lambda>r. r_status r = S_conflict) (map (classified cfg (length sheets) cols) (recordMapOf sheets kc)),
      allRecords = map (classified cfg (length sheets) cols) (recordMapOf sheets kc)\<rparr>"
    by (simp only: fold_categorize results.simps append_Nil)
  then show thesis by (intro that [of cols]) simp_all
qed


lemma recordMapOf_keys:
  "\<forall>(k, r)\<in>set (recordMapOf sheets kc). r_key r = k"
  unfolding recordMapOf_def
  by (rule fold_addSheet_invariant) (simp_all add: freshRecord_def touched_def)

lemma recordMapOf_distinct: "distinct (map fst (recordMapOf sheets kc))"
  unfolding recordMapOf_def by (rule fold_addSheet_distinct) simp


lemma count_list_filter: "count_list (filter P xs) x = (if P x then count_list xs x else 0)"
  by (induction xs) auto

lemma count_list_distinct: "distinct xs \<Longrightarrow> x \<in> set xs \<Longrightarrow> count_list xs x = 1"
  by (induction xs) auto

lemma length_filter_status:
  "\<forall>r\<in>set xs. r_status r \<noteq> S_unknown \<Longrightarrow>
   length (filter (\<lambda>r. r_status r = S_matched) xs) + length (filter (\<lambda>r. r_status r = S_similar) xs) +
   length (filter (\<lambda>r. r_status r = S_missing) xs) + length (filter (\<lambda>r. r_status r = S_conflict) xs) =
   length xs"
proof (induction xs)
  case Nil
  show ?case by simp
next
  case (Cons x xs)
  then show ?case by (cases "r_status x") simp_all
qed

text \<open>
  C10. A comparison report partitions its records: the records of \<open>results.all\<close> are
  distinct, each appears exactly once in the four category lists taken together (and these
  hold nothing else), each has one of the statuses matched, similar, missing, conflict (never
  the initial unknown), and \<open>summary.totalRecords\<close> is both the length of \<open>results.all\<close>
  and the sum of the four category counts.
\<close>

theorem compareSheets_partition:
  assumes "compareSheets cfg0 sheets keyColumn opts = Inr (rep, cfg)"
  shows "distinct (allRecords (rp_results rep)) \<and>
         set (buckets (rp_results rep)) = set (allRecords (rp_results rep)) \<and>
         (\<forall>r\<in>set (allRecords (rp_results rep)).
            count_list (buckets (rp_results rep)) r = 1 \<and>
            r_status r \<in> {S_matched, S_similar, S_missing, S_conflict}) \<and>
         sm_totalRecords (rp_summary rep) = length (allRecords (rp_results rep)) \<and>
         sm_totalRecords (rp_summary rep) =
           sm_exactMatches (rp_summary rep) + sm_fuzzyMatches (rp_summary rep) +
           sm_differences (rp_summary rep) + sm_conflicts (rp_summary rep)"
proof -
  let ?all = "allRecords (rp_results rep)"
  from assms obtain cols where res:
    "?all = map (classified cfg (length sheets) cols) (recordMapOf sheets keyColumn)"
    "exactMatches (rp_results rep) = filter (\<lambda>r. r_status r = S_matched) ?all"
    "fuzzyMatches (rp_results rep) = filter (\<lambda>r. r_status r = S_similar) ?all"
    "differences (rp_results rep) = filter (\<lambda>r. r_status r = S_missing) ?all"
    "conflicts (rp_results rep) = filter (\<lambda>r. r_status r = S_conflict) ?all"
    by (rule results_of_report)
  have known: "\<forall>r\<in>set ?all. r_status r \<noteq> S_unknown"
    unfolding res(1) by (simp add: classified_fields)
  have "map r_key ?all = map fst (recordMapOf sheets keyColumn)"
    unfolding res(1) using recordMapOf_keys [of sheets keyColumn]
    by (auto simp: classified_fields)
  then have "distinct (map r_key ?all)"
    by (simp add: recordMapOf_distinct)
  then have d: "distinct ?all" by (rule distinct_map [THEN iffD1, THEN conjunct1])
  have st: "r_status r \<in> {S_matched, S_similar, S_missing, S_conflict}" if "r \<in> set ?all" for r
    using known that by (cases "r_status r") auto
  have s: "set (buckets (rp_results rep)) = set ?all"
    unfolding buckets_def res(2-5) using st by auto
  have c: "count_list (buckets (rp_results rep)) r = 1" if "r \<in> set ?all" for r
  proof -
    from d that have "count_list ?all r = 1" by (simp add: count_list_distinct)
    with st [OF that] show ?thesis
      unfolding buckets_def res(2-5) by (auto simp: count_list_filter)
  qed
  from compareSheets_Inr [OF assms] have sm:
    "sm_totalRecords (rp_summary rep) = length (recordMapOf sheets keyColumn)"
    "sm_exactMatches (rp_summary rep) = length (exactMatches (rp_results rep))"
    "sm_fuzzyMatches (rp_summary rep) = length (fuzzyMatches (rp_results rep))"
    "sm_differences (rp_summary rep) = length (differences (rp_results rep))"
    "sm_conflicts (rp_summary rep) = length (conflicts (rp_results rep))"
    by blast+
  have t: "sm_totalRecords (rp_summary rep) = length ?all"
    unfolding sm(1) res(1) by simp
  have "sm_exactMatches (rp_summary rep) + sm_fuzzyMatches (rp_summary rep) +
        sm_differences (rp_summary rep) + sm_conflicts (rp_summary rep) = length ?all"
    unfolding sm(2-5) res(2-5) using known by (rule length_filter_status)
  with d s c st t show ?thesis by simp
qed


section \<open>A small comparison, evaluated\<close>

lemma trims: "trim (js '' '') = []" "trim (js ''7 '') = js ''7''" "trim (js ''8'') = js ''8''" "trim (js ''7'') = js ''7''"
  by code_simp+

lemma digs: "digitsOf 7 = js ''7''" by code_simp

lemma jsne: "js ''id'' \<noteq> js ''_rowIndex''" "js ''7'' \<noteq> js ''8''" "js ''8'' \<noteq> js ''7''" "js ''7'' \<noteq> []" "js ''8'' \<noteq> []" by code_simp+

lemma demo_report:
  "\<exists>rep cfg. compareSheets default_config [demo_sheetA, demo_sheetB] (js ''id'')
                \<lparr>compareColumns = None, threshold = None\<rparr> = Inr (rep, cfg) \<and>
              map r_key (allRecords (rp_results rep)) = [js ''7'', js ''8''] \<and>
              map r_status (allRecords (rp_results rep)) = [S_matched, S_missing] \<and>
              map r_key (exactMatches (rp_results rep)) = [js ''7''] \<and>
              map r_key (differences (rp_results rep)) = [js ''8''] \<and>
              fuzzyMatches (rp_results rep) = [] \<and> conflicts (rp_results rep) = [] \<and>
              sm_totalRecords (rp_summary rep) = 2"
  by (simp add: compareSheets_def demo_sheetA_def demo_sheetB_def newSet_def addSheet_def
      addRow_def getProp_def trims digs jsne Let_def categorize_def analyzeRecord_def)


theorem compareSheets_partition_witness:
  "\<exists>rep cfg.
     compareSheets default_config [demo_sheetA, demo_sheetB] (js ''id'')
       \<lparr>compareColumns = None, threshold = None\<rparr> = Inr (rep, cfg) \<and>
     map r_key (allRecords (rp_results rep)) = [js ''7'', js ''8''] \<and>
     map r_status (allRecords (rp_results rep)) = [S_matched, S_missing] \<and>
     distinct (allRecords (rp_results rep)) \<and>
     set (buckets (rp_results rep)) = set (allRecords (rp_results rep)) \<and>
     list_all (\<lambda>r. count_list (buckets (rp_results rep)) r = 1) (allRecords (rp_results rep)) \<and>
     sm_totalRecords (rp_summary rep) = 2 \<and>
     sm_totalRecords (rp_summary rep) =
       sm_exactMatches (rp_summary rep) + sm_fuzzyMatches (rp_summary rep) +
       sm_differences (rp_summary rep) + sm_conflicts (rp_summary rep)"
proof -
  from demo_report obtain rep cfg where
    rep: "compareSheets default_config [demo_sheetA, demo_sheetB] (js ''id'')
            \<lparr>compareColumns = None, threshold = None\<rparr> = Inr (rep, cfg)"
    and vals: "map r_key (allRecords (rp_results rep)) = [js ''7'', js ''8'']"
      "map r_status (allRecords (rp_results rep)) = [S_matched, S_missing]"
      "sm_totalRecords (rp_summary rep) = 2"
    by (elim exE conjE) (rule that)
  from compareSheets_partition [OF rep] rep vals show ?thesis
    by (auto simp: list_all_iff)
qed


section \<open>The score of a header named Employee ID\<close>




lemma digit_lowerChar: "isDigit c \<Longrightarrow> lowerChar c = c"
  by (auto simp: lowerChar_def isDigit_def word_le_nat_alt)



















section \<open>Extraction and preparation of the parsed files\<close>

lemma extractSheet_names:
  "map (\<lambda>s. (ps_name s, ps_rowCount s)) (extractSheet (n, d) acc) =
     map (\<lambda>s. (ps_name s, ps_rowCount s)) acc @ (if d = [] then [] else [(n, length d - 1)])"
  by (simp add: extractSheet_def Let_def)

lemma fold_extractSheet:
  "map (\<lambda>s. (ps_name s, ps_rowCount s)) (fold extractSheet wb acc) =
     map (\<lambda>s. (ps_name s, ps_rowCount s)) acc @
     map (\<lambda>(n, d). (n, length d - 1)) (filter (\<lambda>(n, d). d \<noteq> []) wb)"
proof (induction wb arbitrary: acc)
  case Nil
  show ?case by simp
next
  case (Cons nd wb)
  obtain n d where nd: "nd = (n, d)" by (cases nd)
  have "map (\<lambda>s. (ps_name s, ps_rowCount s)) (fold extractSheet (nd # wb) acc) =
        map (\<lambda>s. (ps_name s, ps_rowCount s)) (fold extractSheet wb (extractSheet (n, d) acc))"
    by (simp add: nd)
  also have "\<dots> = map (\<lambda>s. (ps_name s, ps_rowCount s)) (extractSheet (n, d) acc) @
        map (\<lambda>(n, d). (n, length d - 1)) (filter (\<lambda>(n, d). d \<noteq> []) wb)"
    by (rule Cons.IH)
  finally show ?case by (simp add: extractSheet_names nd)
qed

text \<open>
  C4, as amended. The sheets of the extracted file are, in order, the sheets for which the
  library returns at least one row; each has as many data rows as rows follow its first
  one. So a sheet with no row at all does not appear, and a sheet with a header row only
  appears with no data row.
\<close>

theorem extractWorkbookData_sheets:
  "map (\<lambda>s. (ps_name s, ps_rowCount s)) (pf_sheets (extractWorkbookData wb fileName)) =
     map (\<lambda>(n, d). (n, length d - 1)) (filter (\<lambda>(n, d). d \<noteq> []) wb)"
  by (simp add: extractWorkbookData_def Let_def fold_extractSheet)

theorem header_only_sheet_counterexample:
  "map (\<lambda>s. (ps_name s, ps_rows s))
     (pf_sheets (extractWorkbookData [(js ''Only'', [[Str (js ''id''), Str (js ''name'')]])] (js ''f.csv''))) =
   [(js ''Only'', [])]"
  by (simp add: extractWorkbookData_def extractSheet_def Let_def)

lemma fold_prepareSheet:
  "fold (\<lambda>isheet acc. acc @ [prepareSheet fi file isheet]) xs acc =
     acc @ map (prepareSheet fi file) xs"
  by (induction xs arbitrary: acc) simp_all

lemma prepareFile_step:
  "prepareFile (fi, pf) acc = acc @ map (prepareSheet fi pf) (enumerate 0 (pf_sheets pf))"
  by (simp add: prepareFile_def fold_prepareSheet)

lemma fold_prepareFile:
  "fold prepareFile ifs acc =
     acc @ concat (map (\<lambda>(fi, file). map (prepareSheet fi file) (enumerate 0 (pf_sheets file))) ifs)"
proof (induction ifs arbitrary: acc)
  case Nil
  show ?case by simp
next
  case (Cons a ifs)
  obtain fi pf where a: "a = (fi, pf)" by (cases a)
  have "fold prepareFile (a # ifs) acc = fold prepareFile ifs (prepareFile (fi, pf) acc)"
    by (simp add: a)
  also have "\<dots> = prepareFile (fi, pf) acc @
      concat (map (\<lambda>(fi, file). map (prepareSheet fi file) (enumerate 0 (pf_sheets file))) ifs)"
    by (rule Cons.IH)
  finally show ?case by (simp add: a prepareFile_step)
qed

lemma map_prepareSheet_labels:
  "map (\<lambda>s. (cs_fileName s, cs_sheetName s, cs_label s))
     (map (prepareSheet fi file) (enumerate i xs)) =
   map (\<lambda>sheet. (pf_fileName file, ps_name sheet,
          if length (pf_sheets file) > 1 then pf_fileName file @ js '' - '' @ ps_name sheet
          else pf_fileName file)) xs"
  by (induction xs arbitrary: i) (simp_all add: prepareSheet_def)

lemma labels_of_file:
  "map (\<lambda>s. (cs_fileName s, cs_sheetName s, cs_label s))
     (map (prepareSheet fi file) (enumerate 0 (pf_sheets file))) =
   map (\<lambda>sheet. (pf_fileName file, ps_name sheet, expectedLabel file sheet)) (pf_sheets file)"
proof (cases "pf_sheets file")
  case Nil
  then show ?thesis by simp
next
  case (Cons sheet sheets)
  then have "(length (pf_sheets file) > 1) = (length (pf_sheets file) \<noteq> 1)" by auto
  then show ?thesis
    unfolding map_prepareSheet_labels by (simp add: expectedLabel_def)
qed

text \<open>
  C5, as amended. The sheets prepared for comparison are the sheets of the parsed files, in
  order; a sheet of a file that has exactly one sheet gets the file name alone as its
  label, and a sheet of a file with several sheets gets \<open>"<fileName> - <sheetName>"\<close>.
\<close>

theorem prepareForComparison_labels:
  "map (\<lambda>s. (cs_fileName s, cs_sheetName s, cs_label s)) (pr_sheets (prepareForComparison files)) =
   concat (map (\<lambda>file. map (\<lambda>sheet. (pf_fileName file, ps_name sheet, expectedLabel file sheet))
                          (pf_sheets file)) files)"
proof -
  have "map (\<lambda>s. (cs_fileName s, cs_sheetName s, cs_label s))
          (concat (map (\<lambda>(fi, file). map (prepareSheet fi file) (enumerate 0 (pf_sheets file)))
                     (enumerate i files))) =
        concat (map (\<lambda>file. map (\<lambda>sheet. (pf_fileName file, ps_name sheet, expectedLabel file sheet))
                          (pf_sheets file)) files)" for i
    by (induction files arbitrary: i) (simp_all add: labels_of_file del: map_map)
  then show ?thesis
    by (simp add: prepareForComparison_def Let_def fold_prepareFile del: map_map)
qed

theorem single_sheet_label_counterexample:
  "map cs_label
     (pr_sheets (prepareForComparison
        [\<lparr>pf_fileName = js ''staff.csv'',
          pf_sheets = [\<lparr>ps_name = js ''Sheet1'', ps_headers = [], ps_rows = [],
                        ps_rowCount = 0, ps_columnCount = 0\<rparr>],
          pf_sheetCount = 1, pf_totalRows = 0\<rparr>])) = [js ''staff.csv''] \<and>
   js ''staff.csv'' \<noteq> js ''Sheet1''"
  by (simp add: prepareForComparison_def prepareFile_def prepareSheet_def Let_def js_def)


section \<open>The second loop of jaro ends\<close>

lemma count_marks_update:
  "i < length xs \<Longrightarrow> \<not> xs ! i \<Longrightarrow>
   length (filter id (xs[i := True])) = Suc (length (filter id xs))"
proof (induction xs arbitrary: i)
  case Nil
  then show ?case by simp
next
  case (Cons x xs)
  then show ?case by (cases i) auto
qed

lemma find_Some_holds: "find P xs = Some x \<Longrightarrow> P x \<and> x \<in> set xs"
  by (induction xs) (auto split: if_splits)

lemma jaro_find_Some:
  assumes "jaro_find a b bm i w = Some j"
  shows "j < length b \<and> \<not> bm ! j"
proof -
  let ?stop = "min (int i + w + 1) (int (length b))"
  from assms have "find (\<lambda>j. \<not> bm ! j \<and> a ! i = b ! j) [nat (max 0 (int i - w))..<nat ?stop] = Some j"
    by (simp add: jaro_find_def Let_def)
  from find_Some_holds [OF this] have "\<not> bm ! j" and "j < nat ?stop" by simp_all
  moreover have "nat ?stop \<le> length b" by simp
  ultimately show ?thesis by simp
qed

lemma jaro_step_invariant:
  assumes "i < length am" and "length bm = length b"
    and "\<forall>k. i \<le> k \<and> k < length am \<longrightarrow> \<not> am ! k"
    and "length (filter id am) = m" and "length (filter id bm) = m"
    and "jaro_step a b w i (am, bm, m) = (am', bm', m')"
  shows "length am' = length am \<and> length bm' = length b \<and>
         (\<forall>k. Suc i \<le> k \<and> k < length am' \<longrightarrow> \<not> am' ! k) \<and>
         length (filter id am') = m' \<and> length (filter id bm') = m'"
proof (cases "jaro_find a b bm i w")
  case None
  with assms show ?thesis by (auto simp: jaro_step_def)
next
  case (Some j)
  from jaro_find_Some [OF Some] assms(2) have j: "j < length bm" "\<not> bm ! j" by simp_all
  from assms(1,3) have i: "\<not> am ! i" by simp
  from assms(6) Some have r: "am' = am[i := True]" "bm' = bm[j := True]" "m' = m + 1"
    by (simp_all add: jaro_step_def)
  from assms(1,2,3,4,5) i j show ?thesis
    unfolding r by (auto simp: count_marks_update)
qed

lemma jaro_fold_invariant:
  assumes "length am = n" and "length bm = length b" and "i \<le> n"
    and "\<forall>k. i \<le> k \<and> k < n \<longrightarrow> \<not> am ! k"
    and "length (filter id am) = m" and "length (filter id bm) = m"
    and "fold (jaro_step a b w) [i..<n] (am, bm, m) = (am', bm', m')"
  shows "length am' = n \<and> length bm' = length b \<and>
         length (filter id am') = m' \<and> length (filter id bm') = m'"
  using assms
proof (induction "n - i" arbitrary: i am bm m)
  case 0
  then show ?case by simp
next
  case (Suc d)
  then have i: "i < n" by simp
  obtain am1 bm1 m1 where s: "jaro_step a b w i (am, bm, m) = (am1, bm1, m1)"
    by (metis prod_cases3)
  from i Suc.prems(1) have "i < length am" by simp
  from jaro_step_invariant [OF this Suc.prems(2) _ Suc.prems(5,6) s] Suc.prems(1,4)
  have inv: "length am1 = n" "length bm1 = length b" "\<forall>k. Suc i \<le> k \<and> k < n \<longrightarrow> \<not> am1 ! k"
    "length (filter id am1) = m1" "length (filter id bm1) = m1"
    by auto
  from Suc.prems(7) i s have f: "fold (jaro_step a b w) [Suc i..<n] (am1, bm1, m1) = (am', bm', m')"
    by (simp add: upt_conv_Cons)
  from Suc.hyps(2) i have d: "d = n - Suc i" by simp
  from i have "Suc i \<le> n" by simp
  from Suc.hyps(1) [OF d inv(1,2) this inv(3,4,5) f] show ?case .
qed

lemma jaro_marks_balanced:
  assumes "jaro_marks a b = (am, bm, m)"
  shows "length am = length a \<and> length bm = length b \<and>
         length (filter id am) = m \<and> length (filter id bm) = m"
proof -
  have "length (filter id (replicate n False)) = 0" for n by (induction n) simp_all
  then show ?thesis
    using jaro_fold_invariant [of "replicate (length a) False" "length a"
        "replicate (length b) False" b 0 0 a _ am bm m] assms
    by (simp add: jaro_marks_def)
qed

lemma filter_marks_zip:
  "length ms = length cs \<Longrightarrow> length (filter fst (zip ms cs)) = length (filter id ms)"
  by (induction ms cs rule: list_induct2) simp_all

lemma filter_dropWhile_not:
  "filter P (dropWhile (\<lambda>x. \<not> P x) xs) = filter P xs"
  by (induction xs) simp_all

lemma jaro_transpositions_returns:
  "length (filter fst as) \<le> length (filter fst bs) \<Longrightarrow>
   jaro_transpositions_checked as bs = Some (jaro_transpositions as bs)"
proof (induction as arbitrary: bs)
  case Nil
  show ?case by simp
next
  case (Cons p as)
  obtain am ac where p: "p = (am, ac)" by (cases p)
  show ?case
  proof (cases am)
    case False
    with Cons p show ?thesis by simp
  next
    case True
    let ?d = "dropWhile (\<lambda>(bm, bc). \<not> bm) bs"
    have "(\<lambda>(bm, bc). \<not> bm) = (\<lambda>x :: bool \<times> jschar. \<not> fst x)" by auto
    then have fd: "filter fst ?d = filter fst bs"
      using filter_dropWhile_not [of fst bs] by simp
    have "?d \<noteq> []"
    proof
      assume "?d = []"
      with fd have "filter fst bs = []" by simp
      with Cons.prems p True show False by simp
    qed
    then obtain bm bc bs' where d: "?d = (bm, bc) # bs'" by (cases ?d) auto
    have "bm" using dropWhile_eq_Cons_conv [THEN iffD1, OF d] by simp
    with fd d have "filter fst bs = (bm, bc) # filter fst bs'" by simp
    then have "length (filter fst bs) = Suc (length (filter fst bs'))" by simp
    with Cons.prems p True have "length (filter fst as) \<le> length (filter fst bs')" by simp
    from Cons.IH [OF this] p True d show ?thesis by simp
  qed
qed

lemma jaro_second_loop_ends:
  assumes "jaro_marks a b = (am, bm, m)"
  shows "jaro_transpositions_checked (zip am a) (zip bm b) =
           Some (jaro_transpositions (zip am a) (zip bm b))"
proof -
  from jaro_marks_balanced [OF assms] have
    "length (filter fst (zip am a)) = length (filter fst (zip bm b))"
    by (simp add: filter_marks_zip)
  then show ?thesis by (intro jaro_transpositions_returns) simp
qed

lemma jaro_by_marks:
  "jaro a b =
     (if a = b then 1
      else case jaro_marks a b of (aMatches, bMatches, matches) \<Rightarrow>
             if matches = 0 then 0
             else (real matches / real (length a) + real matches / real (length b) +
                   (real matches -
                    real (jaro_transpositions (zip aMatches a) (zip bMatches b)) / 2) /
                   real matches) / 3)"
  by (simp add: jaro_def jaro_marks_def Let_def case_prod_beta)

end
